theory Spec2Isabelle
  imports Complex_Main "HOL-Library.Word"
begin

section \<open>Strings\<close>

text \<open>
  A string of the program is a sequence of UTF-16 code units. The literals of
  \<^verbatim>\<open>App.tsx\<close> that are not ASCII (condition texts, icons, the default location) are
  written out as their code units; an ASCII literal goes through \<open>ascii\<close>.
\<close>

type_synonym jstring = "16 word list"

definition ascii :: "string \<Rightarrow> jstring" where
  "ascii s = map (\<lambda>c. of_nat (of_char c)) s"

text \<open>A string is falsy exactly when it is empty (\<^verbatim>\<open>!s\<close>, \<^verbatim>\<open>s || d\<close>).\<close>

definition orElse :: "jstring \<Rightarrow> jstring \<Rightarrow> jstring" where
  "orElse s d = (if s = [] then d else s)"

text \<open>
  \<^verbatim>\<open>String.prototype.trim\<close> removes the white space and line terminator code units of
  ECMAScript from both ends.
\<close>

definition isWhiteSpace :: "16 word \<Rightarrow> bool" where
  "isWhiteSpace c \<longleftrightarrow>
     c \<in> {0x09, 0x0A, 0x0B, 0x0C, 0x0D, 0x20, 0xA0, 0x1680, 0x2028, 0x2029, 0x202F, 0x205F,
          0x3000, 0xFEFF}
     \<or> (0x2000 \<le> c \<and> c \<le> 0x200A)"

definition trim :: "jstring \<Rightarrow> jstring" where
  "trim s = rev (dropWhile isWhiteSpace (rev (dropWhile isWhiteSpace s)))"

text \<open>
  \<^verbatim>\<open>indexOf\<close> and \<^verbatim>\<open>lastIndexOf\<close> for a one-unit search string: the position of the
  first (last) occurrence, \<open>-1\<close> when there is none.
\<close>

fun indexOf :: "'a list \<Rightarrow> 'a \<Rightarrow> int" where
  "indexOf [] c = -1"
| "indexOf (x # xs) c =
     (if x = c then 0 else (let i = indexOf xs c in if i < 0 then -1 else i + 1))"

definition lastIndexOf :: "'a list \<Rightarrow> 'a \<Rightarrow> int" where
  "lastIndexOf xs c =
     (let i = indexOf (rev xs) c in if i < 0 then -1 else int (length xs) - 1 - i)"

text \<open>
  \<^verbatim>\<open>slice(a, b)\<close>: a negative index counts from the end, both are clamped to the
  length, and the result is empty when the end is not after the start.
  \<^verbatim>\<open>slice(a)\<close> is \<open>sliceFrom\<close>.
\<close>

definition slice :: "'a list \<Rightarrow> int \<Rightarrow> int \<Rightarrow> 'a list" where
  "slice s a b =
     (let n = int (length s);
          from = (if a < 0 then max (n + a) 0 else min a n);
          to = (if b < 0 then max (n + b) 0 else min b n)
      in take (nat (to - from)) (drop (nat from) s))"

definition sliceFrom :: "'a list \<Rightarrow> int \<Rightarrow> 'a list" where
  "sliceFrom s a = slice s a (int (length s))"

text \<open>\<^verbatim>\<open>includes\<close>: the needle occurs somewhere in the string.\<close>

fun includes_str :: "'a list \<Rightarrow> 'a list \<Rightarrow> bool" where
  "includes_str [] needle = (needle = [])"
| "includes_str (x # xs) needle =
     (take (length needle) (x # xs) = needle \<or> includes_str xs needle)"

text \<open>\<^verbatim>\<open>Math.min(...xs)\<close> and \<^verbatim>\<open>Math.max(...xs)\<close> of a list that is not empty.\<close>

definition minOf :: "int list \<Rightarrow> int" where
  "minOf xs = fold min (tl xs) (hd xs)"

definition maxOf :: "int list \<Rightarrow> int" where
  "maxOf xs = fold max (tl xs) (hd xs)"

section \<open>The lenient JSON decoder\<close>

text \<open>
  \<^verbatim>\<open>parseJsonLenient\<close> (App.tsx, lines 55 to 73). \<^verbatim>\<open>JSON.parse\<close> is the runtime's: the
  decoder is defined over any strict parser \<open>parse\<close>, where \<open>None\<close> is the
  \<^verbatim>\<open>SyntaxError\<close> it throws. The decoder fails with the error of its own
  (\<^verbatim>\<open>new Error('invalid json')\<close>) or with the \<^verbatim>\<open>SyntaxError\<close> of the second parse, which
  is not caught.
\<close>

datatype decode_error = InvalidJson | SyntaxError

definition parseJsonLenient :: "(jstring \<Rightarrow> 'a option) \<Rightarrow> jstring \<Rightarrow> decode_error + 'a" where
  "parseJsonLenient parse rawText =
     (let text = trim rawText in
      case parse text of
        Some v \<Rightarrow> Inr v
      | None \<Rightarrow>
          (let firstObj = indexOf text 0x7B;
               firstArr = indexOf text 0x5B;
               startCandidates = filter (\<lambda>v. v \<ge> 0) [firstObj, firstArr];
               start = (if startCandidates \<noteq> [] then minOf startCandidates else -1)
           in if start < 0 then Inl InvalidJson
              else
                (let sliced = sliceFrom text start;
                     endObj = lastIndexOf sliced 0x7D;
                     endArr = lastIndexOf sliced 0x5D;
                     endCandidates = filter (\<lambda>v. v \<ge> 0) [endObj, endArr];
                     end = (if endCandidates \<noteq> [] then maxOf endCandidates else -1)
                 in if end < 0 then Inl InvalidJson
                    else (case parse (slice sliced 0 (end + 1)) of
                            Some v \<Rightarrow> Inr v
                          | None \<Rightarrow> Inl SyntaxError))))"

text \<open>
  The decoder in the words of the specification: the span runs from the earliest opening
  bracket to the latest closing bracket at or after it, and is empty when either is
  missing.
\<close>

definition isOpening :: "16 word \<Rightarrow> bool" where
  "isOpening c \<longleftrightarrow> c = 0x7B \<or> c = 0x5B"

definition isClosing :: "16 word \<Rightarrow> bool" where
  "isClosing c \<longleftrightarrow> c = 0x7D \<or> c = 0x5D"

definition bracketSpan :: "jstring \<Rightarrow> jstring" where
  "bracketSpan text =
     rev (dropWhile (\<lambda>c. \<not> isClosing c) (rev (dropWhile (\<lambda>c. \<not> isOpening c) text)))"

definition decodeSpec :: "(jstring \<Rightarrow> 'a option) \<Rightarrow> jstring \<Rightarrow> decode_error + 'a" where
  "decodeSpec parse rawText =
     (case parse (trim rawText) of
        Some v \<Rightarrow> Inr v
      | None \<Rightarrow>
          if bracketSpan (trim rawText) = [] then Inl InvalidJson
          else (case parse (bracketSpan (trim rawText)) of
                  Some v \<Rightarrow> Inr v
                | None \<Rightarrow> Inl SyntaxError))"

text \<open>The two searches of the decoder, named for the proofs.\<close>

definition firstOf :: "'a list \<Rightarrow> 'a \<Rightarrow> 'a \<Rightarrow> int" where
  "firstOf xs a b =
     (let cands = filter (\<lambda>v. v \<ge> 0) [indexOf xs a, indexOf xs b]
      in if cands \<noteq> [] then minOf cands else -1)"

definition lastOf :: "'a list \<Rightarrow> 'a \<Rightarrow> 'a \<Rightarrow> int" where
  "lastOf xs a b =
     (let cands = filter (\<lambda>v. v \<ge> 0) [lastIndexOf xs a, lastIndexOf xs b]
      in if cands \<noteq> [] then maxOf cands else -1)"

subsection \<open>A strict parser to run the decoder on\<close>

text \<open>
  A strict parser for the fragment of JSON without escapes in strings and without
  fractions and exponents in numbers: what it accepts is JSON, with the value it returns.
  The examples of the decoder run on it.
\<close>

datatype json = JNull | JBool bool | JNum int | JStr jstring
  | JArr "json list" | JObj "(jstring \<times> json) list"

definition skipWs :: "jstring \<Rightarrow> jstring" where
  "skipWs cs = dropWhile (\<lambda>c. c \<in> {0x20, 0x09, 0x0A, 0x0D}) cs"

definition isDigit :: "16 word \<Rightarrow> bool" where
  "isDigit c \<longleftrightarrow> 0x30 \<le> c \<and> c \<le> 0x39"

text \<open>The units of a string up to its closing quote; the opening quote is already read.\<close>

fun parseChars :: "jstring \<Rightarrow> (jstring \<times> jstring) option" where
  "parseChars [] = None"
| "parseChars (c # cs) =
     (if c = 0x22 then Some ([], cs)
      else if c = 0x5C \<or> c < 0x20 then None
      else (case parseChars cs of None \<Rightarrow> None | Some (s, rest) \<Rightarrow> Some (c # s, rest)))"

definition digitsValue :: "jstring \<Rightarrow> nat" where
  "digitsValue ds = foldl (\<lambda>a c. 10 * a + (unat c - 48)) 0 ds"

definition parseNumber :: "jstring \<Rightarrow> (json \<times> jstring) option" where
  "parseNumber cs =
     (let neg = (cs \<noteq> [] \<and> hd cs = 0x2D);
          r = (if neg then tl cs else cs);
          ds = takeWhile isDigit r
      in if ds = [] \<or> (length ds > 1 \<and> hd ds = 0x30) then None
         else Some (JNum (if neg then - int (digitsValue ds) else int (digitsValue ds)),
                    dropWhile isDigit r))"

fun parseValue :: "nat \<Rightarrow> jstring \<Rightarrow> (json \<times> jstring) option"
  and parseElements :: "nat \<Rightarrow> jstring \<Rightarrow> (json list \<times> jstring) option"
  and parseMembers :: "nat \<Rightarrow> jstring \<Rightarrow> ((jstring \<times> json) list \<times> jstring) option"
where
  "parseValue 0 cs = None"
| "parseValue (Suc n) cs =
     (case skipWs cs of
        [] \<Rightarrow> None
      | c # r \<Rightarrow>
          if c = 0x7B then
            (case skipWs r of
               [] \<Rightarrow> None
             | d # r' \<Rightarrow>
                 if d = 0x7D then Some (JObj [], r')
                 else (case parseMembers n (d # r') of
                         None \<Rightarrow> None
                       | Some (ms, rest) \<Rightarrow> Some (JObj ms, rest)))
          else if c = 0x5B then
            (case skipWs r of
               [] \<Rightarrow> None
             | d # r' \<Rightarrow>
                 if d = 0x5D then Some (JArr [], r')
                 else (case parseElements n (d # r') of
                         None \<Rightarrow> None
                       | Some (vs, rest) \<Rightarrow> Some (JArr vs, rest)))
          else if c = 0x22 then
            (case parseChars r of None \<Rightarrow> None | Some (s, rest) \<Rightarrow> Some (JStr s, rest))
          else if take 4 (c # r) = [0x74, 0x72, 0x75, 0x65] then Some (JBool True, drop 4 (c # r))
          else if take 5 (c # r) = [0x66, 0x61, 0x6C, 0x73, 0x65] then
            Some (JBool False, drop 5 (c # r))
          else if take 4 (c # r) = [0x6E, 0x75, 0x6C, 0x6C] then Some (JNull, drop 4 (c # r))
          else parseNumber (c # r))"
| "parseElements 0 cs = None"
| "parseElements (Suc n) cs =
     (case parseValue n cs of
        None \<Rightarrow> None
      | Some (v, rest) \<Rightarrow>
          (case skipWs rest of
             [] \<Rightarrow> None
           | c # r \<Rightarrow>
               if c = 0x5D then Some ([v], r)
               else if c = 0x2C then
                 (case parseElements n r of
                    None \<Rightarrow> None
                  | Some (vs, rest') \<Rightarrow> Some (v # vs, rest'))
               else None))"
| "parseMembers 0 cs = None"
| "parseMembers (Suc n) cs =
     (case skipWs cs of
        [] \<Rightarrow> None
      | c # r \<Rightarrow>
          if c \<noteq> 0x22 then None
          else
            (case parseChars r of
               None \<Rightarrow> None
             | Some (k, rest) \<Rightarrow>
                 (case skipWs rest of
                    [] \<Rightarrow> None
                  | c2 # r2 \<Rightarrow>
                      if c2 \<noteq> 0x3A then None
                      else
                        (case parseValue n r2 of
                           None \<Rightarrow> None
                         | Some (v, rest2) \<Rightarrow>
                             (case skipWs rest2 of
                                [] \<Rightarrow> None
                              | c3 # r3 \<Rightarrow>
                                  if c3 = 0x7D then Some ([(k, v)], r3)
                                  else if c3 = 0x2C then
                                    (case parseMembers n r3 of
                                       None \<Rightarrow> None
                                     | Some (ms, rest3) \<Rightarrow> Some ((k, v) # ms, rest3))
                                  else None)))))"

definition parseJson :: "jstring \<Rightarrow> json option" where
  "parseJson text =
     (case parseValue (2 * length text + 2) text of
        None \<Rightarrow> None
      | Some (v, rest) \<Rightarrow> if skipWs rest = [] then Some v else None)"

section \<open>Data model\<close>

text \<open>
  The item types of App.tsx (lines 4 to 30). A \<^verbatim>\<open>number\<close> that the program shows is an
  integer or \<^verbatim>\<open>NaN\<close> (what \<^verbatim>\<open>parseInt\<close> gives for a text without digits).
\<close>

datatype number = Num int | NaN

record weather_info =
  w_city :: jstring
  w_condition :: jstring
  w_temperature :: number
  w_feels :: number
  w_humidity :: number
  w_wind :: jstring
  w_air :: jstring
  w_icon :: jstring

record todo_item =
  todo_id :: jstring
  todo_title :: jstring
  todo_time :: jstring
  todo_priority :: jstring
  todo_done :: bool

record agenda_item =
  agenda_id :: jstring
  agenda_title :: jstring
  agenda_time :: jstring
  agenda_location :: jstring

record todo_form =
  tf_title :: jstring
  tf_time :: jstring
  tf_priority :: jstring

record agenda_form =
  af_title :: jstring
  af_time :: jstring
  af_location :: jstring

datatype city_mode = Auto | Manual

datatype weather_status = Loading | Ready | Error

datatype panel = TodoPanel | AgendaPanel

text \<open>The payloads of the network, typed as the calls of \<^verbatim>\<open>fetchJson\<close> type them.\<close>

record geo_result =
  geo_name :: jstring
  latitude :: real
  longitude :: real

record current_weather =
  temperature_2m :: real
  apparent_temperature :: real
  relative_humidity_2m :: real
  wind_speed_10m :: real
  weather_code :: int

record wttr_condition =
  temp_C :: jstring
  FeelsLikeC :: jstring
  humidity :: jstring
  windspeedKmph :: jstring
  weatherDesc :: "jstring list"

text \<open>A request is the endpoint with the arguments that the URL carries.\<close>

datatype request =
    Geocoding jstring
  | Forecast real real
  | Wttr jstring
  | IpEndpoint jstring

section \<open>The environment\<close>

text \<open>
  What the program gets from outside: the launch URL, the runtime's functions and the
  network. A network function takes the number of requests made before, so that the
  answer to a request may differ from one call to the next; \<open>None\<close> is a rejected
  \<^verbatim>\<open>fetchJson\<close> (network error, timeout, bad status, text that does not decode). The
  identifier sources take the number of identifiers made before.
\<close>

record env =
  desktopMode :: bool
  moduleParam :: "jstring option"
  randomUUID :: "(nat \<Rightarrow> jstring) option"
  dateNow :: "nat \<Rightarrow> int"
  numberToString :: "int \<Rightarrow> jstring"
  toLowerCase :: "jstring \<Rightarrow> jstring"
  parseInt :: "jstring \<Rightarrow> number"
  stringify :: "json \<Rightarrow> jstring"
  geocoding :: "nat \<Rightarrow> jstring \<Rightarrow> geo_result list option option"
  forecast :: "nat \<Rightarrow> real \<Rightarrow> real \<Rightarrow> current_weather option option"
  wttr :: "nat \<Rightarrow> jstring \<Rightarrow> wttr_condition list option"
  ipLookup :: "nat \<Rightarrow> jstring \<Rightarrow> jstring option option"

section \<open>The state\<close>

text \<open>
  The state variables of \<^verbatim>\<open>App\<close> (lines 192 to 205), the local storage, the number of
  identifiers made and the requests sent, oldest first.
\<close>

record state =
  city :: jstring
  cityMode :: city_mode
  isEditingCity :: bool
  isLocating :: bool
  weather :: "weather_info option"
  weatherStatus :: weather_status
  todos :: "todo_item list"
  todoForm :: todo_form
  agenda :: "agenda_item list"
  agendaForm :: agenda_form
  activePanel :: "panel option"
  storage :: "jstring \<rightharpoonup> jstring"
  idCalls :: nat
  requests :: "request list"

subsection \<open>Persistence\<close>

definition todosKey :: jstring where
  "todosKey = ascii ''dashboard_todos_v1''"

definition agendaKey :: jstring where
  "agendaKey = ascii ''dashboard_agenda_v1''"

definition cityKey :: jstring where
  "cityKey = ascii ''dashboard_city_v1''"

definition cityModeKey :: jstring where
  "cityModeKey = ascii ''dashboard_city_mode_v1''"

text \<open>The values that are saved, as \<^verbatim>\<open>JSON.stringify\<close> sees them.\<close>

definition todoJson :: "todo_item \<Rightarrow> json" where
  "todoJson item =
     JObj [(ascii ''id'', JStr (todo_id item)), (ascii ''title'', JStr (todo_title item)),
           (ascii ''time'', JStr (todo_time item)),
           (ascii ''priority'', JStr (todo_priority item)),
           (ascii ''done'', JBool (todo_done item))]"

definition agendaJson :: "agenda_item \<Rightarrow> json" where
  "agendaJson item =
     JObj [(ascii ''id'', JStr (agenda_id item)), (ascii ''title'', JStr (agenda_title item)),
           (ascii ''time'', JStr (agenda_time item)),
           (ascii ''location'', JStr (agenda_location item))]"

definition cityModeJson :: "city_mode \<Rightarrow> json" where
  "cityModeJson m = JStr (case m of Auto \<Rightarrow> ascii ''auto'' | Manual \<Rightarrow> ascii ''manual'')"

text \<open>\<^verbatim>\<open>saveStorage\<close> (lines 49 to 51).\<close>

definition saveStorage :: "env \<Rightarrow> jstring \<Rightarrow> json \<Rightarrow> state \<Rightarrow> state" where
  "saveStorage e key v s = s\<lparr>storage := (storage s)(key \<mapsto> stringify e v)\<rparr>"

text \<open>
  The four saving effects (lines 227 to 241). An effect runs after a render in which its
  dependency has changed, and all four run after the first render. \<open>prev\<close> is the state
  of the render before.
\<close>

definition saveEffects :: "env \<Rightarrow> state \<Rightarrow> state \<Rightarrow> state" where
  "saveEffects e prev s =
     (let s1 = (if todos s \<noteq> todos prev
                then saveStorage e todosKey (JArr (map todoJson (todos s))) s else s);
          s2 = (if agenda s \<noteq> agenda prev
                then saveStorage e agendaKey (JArr (map agendaJson (agenda s))) s1 else s1);
          s3 = (if city s \<noteq> city prev then saveStorage e cityKey (JStr (city s)) s2 else s2)
      in if cityMode s \<noteq> cityMode prev
         then saveStorage e cityModeKey (cityModeJson (cityMode s)) s3 else s3)"

definition mountEffects :: "env \<Rightarrow> state \<Rightarrow> state" where
  "mountEffects e s =
     saveStorage e cityModeKey (cityModeJson (cityMode s))
       (saveStorage e cityKey (JStr (city s))
         (saveStorage e agendaKey (JArr (map agendaJson (agenda s)))
           (saveStorage e todosKey (JArr (map todoJson (todos s))) s)))"

text \<open>The storage holds the serialization of each of the four values.\<close>

definition persisted :: "env \<Rightarrow> state \<Rightarrow> bool" where
  "persisted e s \<longleftrightarrow>
     storage s todosKey = Some (stringify e (JArr (map todoJson (todos s))))
     \<and> storage s agendaKey = Some (stringify e (JArr (map agendaJson (agenda s))))
     \<and> storage s cityKey = Some (stringify e (JStr (city s)))
     \<and> storage s cityModeKey = Some (stringify e (cityModeJson (cityMode s)))"

subsection \<open>Todos and agenda\<close>

text \<open>\<^verbatim>\<open>createId\<close> (line 53): the \<open>k\<close>-th identifier.\<close>

definition createId :: "env \<Rightarrow> nat \<Rightarrow> jstring" where
  "createId e k =
     (case randomUUID e of
        Some uuid \<Rightarrow> uuid k
      | None \<Rightarrow> numberToString e (dateNow e k))"

text \<open>\<^verbatim>\<open>addTodo\<close> (lines 441 to 455): the handler of the button, which reads the form.\<close>

definition addTodo :: "env \<Rightarrow> state \<Rightarrow> state" where
  "addTodo e s =
     (if tf_title (todoForm s) = [] \<or> tf_time (todoForm s) = [] then s
      else s\<lparr>todos := todos s @
                [\<lparr>todo_id = createId e (idCalls s), todo_title = tf_title (todoForm s),
                  todo_time = tf_time (todoForm s), todo_priority = tf_priority (todoForm s),
                  todo_done = False\<rparr>],
              idCalls := Suc (idCalls s),
              todoForm := \<lparr>tf_title = [], tf_time = [], tf_priority = tf_priority (todoForm s)\<rparr>,
              activePanel := (if desktopMode e then None else activePanel s)\<rparr>)"

text \<open>\<^verbatim>\<open>toggleTodo\<close> and \<^verbatim>\<open>deleteTodo\<close> (lines 457 to 463).\<close>

definition toggleTodo :: "jstring \<Rightarrow> state \<Rightarrow> state" where
  "toggleTodo i s =
     s\<lparr>todos := map (\<lambda>item. if todo_id item = i then item\<lparr>todo_done := \<not> todo_done item\<rparr>
                              else item) (todos s)\<rparr>"

definition deleteTodo :: "jstring \<Rightarrow> state \<Rightarrow> state" where
  "deleteTodo i s = s\<lparr>todos := filter (\<lambda>item. todo_id item \<noteq> i) (todos s)\<rparr>"

text \<open>\<^verbatim>\<open>addAgenda\<close> and \<^verbatim>\<open>deleteAgenda\<close> (lines 465 to 482).\<close>

definition defaultLocation :: jstring where
  "defaultLocation = [0x5F85, 0x5B9A]"

definition addAgenda :: "env \<Rightarrow> state \<Rightarrow> state" where
  "addAgenda e s =
     (if af_title (agendaForm s) = [] \<or> af_time (agendaForm s) = [] then s
      else s\<lparr>agenda := agenda s @
                [\<lparr>agenda_id = createId e (idCalls s), agenda_title = af_title (agendaForm s),
                  agenda_time = af_time (agendaForm s),
                  agenda_location = orElse (af_location (agendaForm s)) defaultLocation\<rparr>],
              idCalls := Suc (idCalls s),
              agendaForm := \<lparr>af_title = [], af_time = [], af_location = []\<rparr>,
              activePanel := (if desktopMode e then None else activePanel s)\<rparr>)"

definition deleteAgenda :: "jstring \<Rightarrow> state \<Rightarrow> state" where
  "deleteAgenda i s = s\<lparr>agenda := filter (\<lambda>item. agenda_id item \<noteq> i) (agenda s)\<rparr>"

text \<open>
  The city editor (lines 522 to 539): \<^verbatim>\<open>onBlur\<close>, and \<^verbatim>\<open>onKeyDown\<close> with the Enter key,
  commit the text of the input.
\<close>

definition commitCity :: "jstring \<Rightarrow> state \<Rightarrow> state" where
  "commitCity input s =
     s\<lparr>city := orElse (trim input) (city s), cityMode := Manual, isEditingCity := False\<rparr>"

section \<open>Weather codes\<close>

text \<open>
  \<^verbatim>\<open>mapWmoToWeather\<close> (App.tsx, lines 109 to 122): the numeric weather code of the
  forecast becomes a condition text and an icon. The rules are tried in the order of the
  source.
\<close>

record condition =
  cond_text :: jstring
  cond_icon :: jstring

definition clear :: condition where
  "clear = \<lparr>cond_text = [0x6674], cond_icon = [0x2600, 0xFE0F]\<rparr>"

definition mostlyClear :: condition where
  "mostlyClear = \<lparr>cond_text = [0x5927, 0x90E8, 0x6674, 0x6717], cond_icon = [0xD83C, 0xDF24, 0xFE0F]\<rparr>"

definition partlyCloudy :: condition where
  "partlyCloudy = \<lparr>cond_text = [0x591A, 0x4E91], cond_icon = [0x26C5, 0xFE0F]\<rparr>"

definition overcast :: condition where
  "overcast = \<lparr>cond_text = [0x9634], cond_icon = [0x2601, 0xFE0F]\<rparr>"

definition fog :: condition where
  "fog = \<lparr>cond_text = [0x96FE], cond_icon = [0xD83C, 0xDF2B, 0xFE0F]\<rparr>"

definition drizzle :: condition where
  "drizzle = \<lparr>cond_text = [0x6BDB, 0x6BDB, 0x96E8], cond_icon = [0xD83C, 0xDF26, 0xFE0F]\<rparr>"

definition rain :: condition where
  "rain = \<lparr>cond_text = [0x96E8], cond_icon = [0xD83C, 0xDF27, 0xFE0F]\<rparr>"

definition snow :: condition where
  "snow = \<lparr>cond_text = [0x96EA], cond_icon = [0xD83C, 0xDF28, 0xFE0F]\<rparr>"

definition showers :: condition where
  "showers = \<lparr>cond_text = [0x9635, 0x96E8], cond_icon = [0xD83C, 0xDF26, 0xFE0F]\<rparr>"

definition snowShowers :: condition where
  "snowShowers = \<lparr>cond_text = [0x9635, 0x96EA], cond_icon = [0xD83C, 0xDF28, 0xFE0F]\<rparr>"

definition thunderstorm :: condition where
  "thunderstorm = \<lparr>cond_text = [0x96F7, 0x66B4], cond_icon = [0x26C8, 0xFE0F]\<rparr>"

definition mapWmoToWeather :: "int \<Rightarrow> condition" where
  "mapWmoToWeather code =
    (if code = 0 then clear
     else if code = 1 then mostlyClear
     else if code = 2 then partlyCloudy
     else if code = 3 then overcast
     else if code = 45 \<or> code = 48 then fog
     else if code \<ge> 51 \<and> code \<le> 57 then drizzle
     else if code \<ge> 61 \<and> code \<le> 67 then rain
     else if code \<ge> 71 \<and> code \<le> 77 then snow
     else if code \<ge> 80 \<and> code \<le> 82 then showers
     else if code \<ge> 85 \<and> code \<le> 86 then snowShowers
     else if code \<ge> 95 then thunderstorm
     else partlyCloudy)"

section \<open>Weather\<close>

text \<open>\<^verbatim>\<open>normalizeCityName\<close> (lines 96 to 107).\<close>

definition normalizeCityName :: "env \<Rightarrow> jstring \<Rightarrow> jstring" where
  "normalizeCityName e raw =
     (let v = trim raw in
      if v = [] then []
      else
        (let lower = toLowerCase e v in
         if lower = ascii ''ningbo'' then [0x5B81, 0x6CE2]
         else if lower = ascii ''beijing'' then [0x5317, 0x4EAC]
         else if lower = ascii ''shanghai'' then [0x4E0A, 0x6D77]
         else if lower = ascii ''hangzhou'' then [0x676D, 0x5DDE]
         else if lower = ascii ''shenzhen'' then [0x6DF1, 0x5733]
         else if lower = ascii ''guangzhou'' then [0x5E7F, 0x5DDE]
         else v))"

text \<open>\<^verbatim>\<open>Math.round\<close>, and \<^verbatim>\<open>xs[0]\<close>, which is \<^verbatim>\<open>undefined\<close> on an empty array.\<close>

definition mathRound :: "real \<Rightarrow> int" where
  "mathRound x = \<lfloor>x + 1 / 2\<rfloor>"

definition firstElem :: "'a list \<Rightarrow> 'a option" where
  "firstElem xs = (case xs of [] \<Rightarrow> None | x # _ \<Rightarrow> Some x)"

definition logRequest :: "request \<Rightarrow> state \<Rightarrow> state" where
  "logRequest r s = s\<lparr>requests := requests s @ [r]\<rparr>"

definition realtime :: jstring where
  "realtime = [0x5B9E, 0x65F6]"

text \<open>
  The primary path of \<^verbatim>\<open>fetchWeather\<close> (lines 287 to 327), the inner \<^verbatim>\<open>try\<close>: the
  weather it builds, or \<open>None\<close> where the source throws (a rejected request, no
  geocoding result, no current weather).
\<close>

definition primaryPath :: "env \<Rightarrow> jstring \<Rightarrow> state \<Rightarrow> weather_info option \<times> state" where
  "primaryPath e normalized s =
     (let s1 = logRequest (Geocoding normalized) s in
      case geocoding e (length (requests s)) normalized of
        None \<Rightarrow> (None, s1)
      | Some geo \<Rightarrow>
          (case (case geo of None \<Rightarrow> None | Some rs \<Rightarrow> firstElem rs) of
             None \<Rightarrow> (None, s1)
           | Some first \<Rightarrow>
               (let s2 = logRequest (Forecast (latitude first) (longitude first)) s1 in
                case forecast e (length (requests s1)) (latitude first) (longitude first) of
                  None \<Rightarrow> (None, s2)
                | Some None \<Rightarrow> (None, s2)
                | Some (Some current) \<Rightarrow>
                    (let mapped = mapWmoToWeather (weather_code current) in
                     (Some \<lparr>w_city = normalized,
                            w_condition = cond_text mapped,
                            w_temperature = Num (mathRound (temperature_2m current)),
                            w_feels = Num (mathRound (apparent_temperature current)),
                            w_humidity = Num (mathRound (relative_humidity_2m current)),
                            w_wind = numberToString e (mathRound (wind_speed_10m current))
                                     @ ascii '' km/h'',
                            w_air = realtime,
                            w_icon = cond_icon mapped\<rparr>, s2)))))"

text \<open>The keyword rules of the secondary path (lines 342 to 352), in the order of the source.\<close>

definition classifyDesc :: "jstring \<Rightarrow> condition" where
  "classifyDesc desc =
     (if includes_str desc (ascii ''sunny'') \<or> includes_str desc (ascii ''clear'') then clear
      else if includes_str desc (ascii ''partly cloudy'') then partlyCloudy
      else if includes_str desc (ascii ''cloudy'') \<or> includes_str desc (ascii ''overcast'')
        then overcast
      else if includes_str desc (ascii ''rain'') \<or> includes_str desc (ascii ''drizzle'')
              \<or> includes_str desc (ascii ''shower'') then rain
      else if includes_str desc (ascii ''snow'') \<or> includes_str desc (ascii ''ice'')
              \<or> includes_str desc (ascii ''blizzard'') then snow
      else if includes_str desc (ascii ''thunder'') then thunderstorm
      else if includes_str desc (ascii ''fog'') \<or> includes_str desc (ascii ''mist'')
              \<or> includes_str desc (ascii ''haze'') then fog
      else partlyCloudy)"

text \<open>The secondary path (lines 328 to 366), the \<^verbatim>\<open>catch\<close> of the inner \<^verbatim>\<open>try\<close>.\<close>

definition secondaryPath :: "env \<Rightarrow> jstring \<Rightarrow> state \<Rightarrow> weather_info option \<times> state" where
  "secondaryPath e normalized s =
     (let s1 = logRequest (Wttr normalized) s in
      case wttr e (length (requests s)) normalized of
        None \<Rightarrow> (None, s1)
      | Some current_condition \<Rightarrow>
          (case firstElem current_condition of
             None \<Rightarrow> (None, s1)
           | Some current \<Rightarrow>
               (let desc = toLowerCase e
                             (case firstElem (weatherDesc current) of
                                None \<Rightarrow> [] | Some v \<Rightarrow> v);
                    c = classifyDesc desc
                in (Some \<lparr>w_city = normalized,
                          w_condition = cond_text c,
                          w_temperature = parseInt e (temp_C current),
                          w_feels = parseInt e (FeelsLikeC current),
                          w_humidity = parseInt e (humidity current),
                          w_wind = windspeedKmph current @ ascii '' km/h'',
                          w_air = realtime,
                          w_icon = cond_icon c\<rparr>, s1))))"

text \<open>
  \<^verbatim>\<open>fetchWeather\<close> (lines 278 to 372): the result of the promise and the state when it
  settles.
\<close>

definition fetchWeather :: "env \<Rightarrow> jstring \<Rightarrow> state \<Rightarrow> bool \<times> state" where
  "fetchWeather e targetCity s =
     (let normalized = normalizeCityName e targetCity in
      if normalized = [] then (False, s\<lparr>weatherStatus := Error\<rparr>)
      else
        (case primaryPath e normalized (s\<lparr>weatherStatus := Loading\<rparr>) of
           (Some info, s1) \<Rightarrow> (True, s1\<lparr>weather := Some info, weatherStatus := Ready\<rparr>)
         | (None, s1) \<Rightarrow>
             (case secondaryPath e normalized s1 of
                (Some info, s2) \<Rightarrow> (True, s2\<lparr>weather := Some info, weatherStatus := Ready\<rparr>)
              | (None, s2) \<Rightarrow> (False, s2\<lparr>weatherStatus := Error\<rparr>))))"

text \<open>
  \<^verbatim>\<open>locateWeather\<close> (lines 374 to 400). \<open>locateLoop\<close> is the \<^verbatim>\<open>for\<close> loop over the
  endpoints that are left; it tells whether a city was committed.
\<close>

definition ipEndpoints :: "jstring list" where
  "ipEndpoints = [ascii ''https://ipwho.is/'', ascii ''https://ipapi.co/json/'',
                  ascii ''https://geolocation-db.com/json/'']"

text \<open>
  One turn of the loop, the \<^verbatim>\<open>try\<close> block: the city to commit, or \<open>None\<close> when the
  turn ends without one (the \<^verbatim>\<open>catch\<close>, a missing or empty city, weather that fails).
\<close>

definition tryEndpoint :: "env \<Rightarrow> jstring \<Rightarrow> state \<Rightarrow> jstring option \<times> state" where
  "tryEndpoint e endpoint s =
     (let s1 = logRequest (IpEndpoint endpoint) s in
      case ipLookup e (length (requests s)) endpoint of
        None \<Rightarrow> (None, s1)
      | Some None \<Rightarrow> (None, s1)
      | Some (Some c) \<Rightarrow>
          if c = [] then (None, s1)
          else
            (let cityName = normalizeCityName e c;
                 r = fetchWeather e cityName s1
             in if fst r then (Some cityName, snd r) else (None, snd r)))"

fun locateLoop :: "env \<Rightarrow> jstring list \<Rightarrow> state \<Rightarrow> bool \<times> state" where
  "locateLoop e [] s = (False, s)"
| "locateLoop e (endpoint # rest) s =
     (case tryEndpoint e endpoint s of
        (Some cityName, s2) \<Rightarrow> (True, s2\<lparr>city := cityName, cityMode := Auto\<rparr>)
      | (None, s2) \<Rightarrow> locateLoop e rest s2)"

definition locateWeather :: "env \<Rightarrow> state \<Rightarrow> state" where
  "locateWeather e s =
     (snd (locateLoop e ipEndpoints (s\<lparr>isLocating := True\<rparr>)))\<lparr>isLocating := False\<rparr>"

text \<open>The endpoints asked for a location since the log had \<open>n\<close> requests.\<close>

fun endpointOf :: "request \<Rightarrow> jstring list" where
  "endpointOf (IpEndpoint url) = [url]"
| "endpointOf r = []"

definition lookupsSince :: "nat \<Rightarrow> state \<Rightarrow> jstring list" where
  "lookupsSince n s = concat (map endpointOf (drop n (requests s)))"

section \<open>The view\<close>

text \<open>
  The branching of the render on \<^verbatim>\<open>moduleView\<close> and \<^verbatim>\<open>desktopMode\<close> (lines 812 to
  947). \<^verbatim>\<open>moduleView\<close> is \<^verbatim>\<open>query.get('module')\<close> as it comes: \<open>None\<close> for \<^verbatim>\<open>null\<close>. A
  card that can be split off shows the button that closes the window when \<^verbatim>\<open>moduleView\<close>
  is truthy (lines 499, 568, 625, 708); that is the flag of the card.
\<close>

datatype card = TimeCard bool | WeatherCard bool | SummaryCard | TodoCard bool | AgendaCard bool

datatype node = Hero "card list" | Grid "card list" | DesktopPeek | Dock | Overlay card

definition truthy :: "jstring option \<Rightarrow> bool" where
  "truthy m = (case m of None \<Rightarrow> False | Some v \<Rightarrow> v \<noteq> [])"

definition render :: "bool \<Rightarrow> jstring option \<Rightarrow> panel option \<Rightarrow> node list" where
  "render desktop moduleView panel =
     (let close = truthy moduleView in
      if moduleView = Some (ascii ''todo'') then [Grid [TodoCard close]]
      else if moduleView = Some (ascii ''agenda'') then [Grid [AgendaCard close]]
      else
        [Hero (if moduleView = Some (ascii ''time'') then [TimeCard close]
               else if moduleView = Some (ascii ''weather'') then [WeatherCard close]
               else [TimeCard close, WeatherCard close, SummaryCard])]
        @ (if desktop \<and> \<not> truthy moduleView then
             [DesktopPeek, Dock]
             @ (case panel of
                  None \<Rightarrow> []
                | Some p \<Rightarrow> [Overlay (if p = TodoPanel then TodoCard close else AgendaCard close)])
           else if \<not> desktop \<and> \<not> truthy moduleView then
             [Grid [TodoCard close, AgendaCard close]]
           else []))"

text \<open>The full dashboard is what a window without a module parameter renders.\<close>

definition fullDashboard :: "bool \<Rightarrow> panel option \<Rightarrow> node list" where
  "fullDashboard desktop panel = render desktop None panel"

section \<open>Events\<close>

text \<open>
  What can happen to a window: the handlers of the forms and lists, the city editor, the
  locate button, and a weather request settling. After the handler, the render runs the
  saving effects.
\<close>

datatype event =
    TodoTitle jstring | TodoTime jstring | TodoPriority jstring
  | AddTodo | ToggleTodo jstring | DeleteTodo jstring
  | AgendaTitle jstring | AgendaTime jstring | AgendaLocation jstring
  | AddAgenda | DeleteAgenda jstring
  | EditCity | CommitCity jstring
  | Locate | FetchWeather jstring
  | OpenPanel panel | ClosePanel

fun handle :: "env \<Rightarrow> event \<Rightarrow> state \<Rightarrow> state" where
  "handle e (TodoTitle v) s = s\<lparr>todoForm := (todoForm s)\<lparr>tf_title := v\<rparr>\<rparr>"
| "handle e (TodoTime v) s = s\<lparr>todoForm := (todoForm s)\<lparr>tf_time := v\<rparr>\<rparr>"
| "handle e (TodoPriority v) s = s\<lparr>todoForm := (todoForm s)\<lparr>tf_priority := v\<rparr>\<rparr>"
| "handle e AddTodo s = addTodo e s"
| "handle e (ToggleTodo i) s = toggleTodo i s"
| "handle e (DeleteTodo i) s = deleteTodo i s"
| "handle e (AgendaTitle v) s = s\<lparr>agendaForm := (agendaForm s)\<lparr>af_title := v\<rparr>\<rparr>"
| "handle e (AgendaTime v) s = s\<lparr>agendaForm := (agendaForm s)\<lparr>af_time := v\<rparr>\<rparr>"
| "handle e (AgendaLocation v) s = s\<lparr>agendaForm := (agendaForm s)\<lparr>af_location := v\<rparr>\<rparr>"
| "handle e AddAgenda s = addAgenda e s"
| "handle e (DeleteAgenda i) s = deleteAgenda i s"
| "handle e EditCity s = s\<lparr>isEditingCity := True\<rparr>"
| "handle e (CommitCity v) s = commitCity v s"
| "handle e Locate s = locateWeather e s"
| "handle e (FetchWeather c) s = snd (fetchWeather e c s)"
| "handle e (OpenPanel p) s = s\<lparr>activePanel := Some p\<rparr>"
| "handle e ClosePanel s = s\<lparr>activePanel := None\<rparr>"

definition dispatch :: "env \<Rightarrow> event \<Rightarrow> state \<Rightarrow> state" where
  "dispatch e ev s = saveEffects e s (handle e ev s)"

definition run :: "env \<Rightarrow> event list \<Rightarrow> state \<Rightarrow> state" where
  "run e evs s = fold (dispatch e) evs s"

section \<open>A concrete environment\<close>

text \<open>
  An environment and states to run the program on: the runtime's functions for ASCII and
  decimal texts, identifiers \<^verbatim>\<open>id-1\<close>, \<^verbatim>\<open>id-11\<close>, ..., and a network that rejects every
  request; the networks of the examples replace single functions of it.
\<close>

function decimal :: "nat \<Rightarrow> jstring" where
  "decimal n = (if n < 10 then [of_nat (48 + n)]
                else decimal (n div 10) @ [of_nat (48 + n mod 10)])"
  by pat_completeness auto
termination
  by (relation "measure id") auto

declare decimal.simps [simp del]

definition showInt :: "int \<Rightarrow> jstring" where
  "showInt i = (if i < 0 then 0x2D # decimal (nat (- i)) else decimal (nat i))"

definition lowerAscii :: "jstring \<Rightarrow> jstring" where
  "lowerAscii v = map (\<lambda>c. if 0x41 \<le> c \<and> c \<le> 0x5A then c + 0x20 else c) v"

definition parseDecimal :: "jstring \<Rightarrow> number" where
  "parseDecimal v =
     (let t = dropWhile isWhiteSpace v;
          neg = (t \<noteq> [] \<and> hd t = 0x2D);
          r = (if t \<noteq> [] \<and> (hd t = 0x2D \<or> hd t = 0x2B) then tl t else t);
          ds = takeWhile isDigit r
      in if ds = [] then NaN
         else Num (if neg then - int (digitsValue ds) else int (digitsValue ds)))"

definition hexDigit :: "nat \<Rightarrow> 16 word" where
  "hexDigit d = (if d < 10 then of_nat (48 + d) else of_nat (87 + d))"

definition escapeUnit :: "16 word \<Rightarrow> jstring" where
  "escapeUnit c =
     (if c = 0x22 then [0x5C, 0x22]
      else if c = 0x5C then [0x5C, 0x5C]
      else if c = 0x08 then [0x5C, 0x62]
      else if c = 0x0C then [0x5C, 0x66]
      else if c = 0x0A then [0x5C, 0x6E]
      else if c = 0x0D then [0x5C, 0x72]
      else if c = 0x09 then [0x5C, 0x74]
      else if c < 0x20 then
        [0x5C, 0x75, 0x30, 0x30, hexDigit (unat c div 16), hexDigit (unat c mod 16)]
      else [c])"

definition quoted :: "jstring \<Rightarrow> jstring" where
  "quoted v = 0x22 # concat (map escapeUnit v) @ [0x22]"

fun commaSep :: "jstring list \<Rightarrow> jstring" where
  "commaSep [] = []"
| "commaSep [x] = x"
| "commaSep (x # y # ys) = x @ 0x2C # commaSep (y # ys)"

primrec stringifyJson :: "json \<Rightarrow> jstring" where
  "stringifyJson JNull = ascii ''null''"
| "stringifyJson (JBool b) = (if b then ascii ''true'' else ascii ''false'')"
| "stringifyJson (JNum n) = showInt n"
| "stringifyJson (JStr v) = quoted v"
| "stringifyJson (JArr vs) = 0x5B # commaSep (map stringifyJson vs) @ [0x5D]"
| "stringifyJson (JObj kvs) =
     0x7B # commaSep (map (\<lambda>kv. quoted (fst kv) @ 0x3A # snd kv)
                          (map (map_prod id stringifyJson) kvs)) @ [0x7D]"

definition demoEnv :: env where
  "demoEnv =
     \<lparr>desktopMode = False,
      moduleParam = None,
      randomUUID = Some (\<lambda>k. ascii ''id-'' @ replicate (Suc k) 0x31),
      dateNow = (\<lambda>k. 0),
      numberToString = showInt,
      toLowerCase = lowerAscii,
      parseInt = parseDecimal,
      stringify = stringifyJson,
      geocoding = (\<lambda>n c. None),
      forecast = (\<lambda>n lat lon. None),
      wttr = (\<lambda>n c. None),
      ipLookup = (\<lambda>n url. None)\<rparr>"

text \<open>The state of a window that starts on an empty storage (the defaults of lines 192 to 205).\<close>

definition emptyState :: state where
  "emptyState =
     \<lparr>city = [0x4E0A, 0x6D77], cityMode = Auto, isEditingCity = False, isLocating = False,
      weather = None, weatherStatus = Loading,
      todos = [], todoForm = \<lparr>tf_title = [], tf_time = [], tf_priority = [0x4E2D]\<rparr>,
      agenda = [], agendaForm = \<lparr>af_title = [], af_time = [], af_location = []\<rparr>,
      activePanel = None, storage = Map.empty, idCalls = 0, requests = []\<rparr>"

text \<open>The window after its first render, with the todo form filled in.\<close>

definition filledState :: state where
  "filledState =
     run demoEnv [TodoTitle (ascii ''Buy milk''), TodoTime (ascii ''13:00'')]
       (mountEffects demoEnv emptyState)"

text \<open>
  A network for the location examples: the first endpoint names a city that no weather
  path resolves, the second names Shanghai, which the primary path resolves.
\<close>

definition locateEnv :: env where
  "locateEnv =
     demoEnv\<lparr>
       ipLookup := (\<lambda>n url.
         if url = ascii ''https://ipwho.is/'' then Some (Some (ascii ''Atlantis''))
         else if url = ascii ''https://ipapi.co/json/'' then Some (Some (ascii ''Shanghai''))
         else None),
       geocoding := (\<lambda>n c.
         if c = [0x4E0A, 0x6D77]
         then Some (Some [\<lparr>geo_name = c, latitude = 31, longitude = 121\<rparr>])
         else Some None),
       forecast := (\<lambda>n lat lon.
         Some (Some \<lparr>temperature_2m = 21, apparent_temperature = 20,
                     relative_humidity_2m = 60, wind_speed_10m = 12, weather_code = 61\<rparr>))\<rparr>"

text \<open>States for the examples of the lists.\<close>

definition standupState :: state where
  "standupState =
     run demoEnv [AgendaTitle (ascii ''Standup''), AgendaTime (ascii ''09:00''),
                  AgendaLocation (ascii ''Room 2'')] emptyState"

text \<open>What a weather request leaves alone, and the invariant of the identifiers.\<close>

definition sameLists :: "state \<Rightarrow> state \<Rightarrow> bool" where
  "sameLists s s' \<longleftrightarrow>
     todos s' = todos s \<and> agenda s' = agenda s \<and> storage s' = storage s \<and> idCalls s' = idCalls s"

definition sameCity :: "state \<Rightarrow> state \<Rightarrow> bool" where
  "sameCity s s' \<longleftrightarrow> city s' = city s \<and> cityMode s' = cityMode s"

definition idsGenerated :: "env \<Rightarrow> state \<Rightarrow> bool" where
  "idsGenerated e s \<longleftrightarrow>
     (\<forall>item\<in>set (todos s). \<exists>k<idCalls s. todo_id item = createId e k)
     \<and> (\<forall>item\<in>set (agenda s). \<exists>k<idCalls s. agenda_id item = createId e k)
     \<and> distinct (map todo_id (todos s)) \<and> distinct (map agenda_id (agenda s))"

text \<open>
  A window without \<^verbatim>\<open>crypto.randomUUID\<close> whose clock stays in one millisecond, two todos
  added in it, and the state before the second is added.
\<close>

definition fallbackEnv :: env where
  "fallbackEnv = demoEnv\<lparr>randomUUID := None, dateNow := (\<lambda>k. 1730000000000)\<rparr>"

definition sameMillisecond :: "event list" where
  "sameMillisecond =
     [TodoTitle (ascii ''Buy milk''), TodoTime (ascii ''13:00''), AddTodo,
      TodoTitle (ascii ''Call home''), TodoTime (ascii ''18:30''), AddTodo]"

definition repeatState :: state where
  "repeatState =
     run fallbackEnv [TodoTitle (ascii ''Buy milk''), TodoTime (ascii ''13:00''), AddTodo,
                      TodoTitle (ascii ''Call home''), TodoTime (ascii ''18:30'')] emptyState"

text \<open>A network where the first endpoint names Shanghai.\<close>

definition directEnv :: env where
  "directEnv = locateEnv\<lparr>ipLookup := (\<lambda>n url. Some (Some (ascii ''Shanghai'')))\<rparr>"

section \<open>Properties of the weather codes\<close>

lemma thunderstorm_neq_partlyCloudy: "thunderstorm \<noteq> partlyCloudy"
  by (simp add: thunderstorm_def partlyCloudy_def)

text \<open>
  C3, as stated: code 999 maps to the default partly-cloudy classification. It does not:
  999 is covered by the rule for codes from 95 upwards and is a thunderstorm.
\<close>

theorem mapWmoToWeather_999_counterexample:
  "mapWmoToWeather 999 = thunderstorm \<and> mapWmoToWeather 999 \<noteq> partlyCloudy"
  by (simp add: mapWmoToWeather_def thunderstorm_neq_partlyCloudy)

text \<open>
  C3, amended: the mapping follows the fixed rules for every integer code. Codes 0, 1, 2
  and 3 are clear, mostly clear, partly cloudy and overcast; 45 and 48 are fog; 51 to 57
  drizzle; 61 to 67 rain; 71 to 77 snow; 80 to 82 showers; 85 and 86 snow showers; every
  code from 95 upwards is a thunderstorm, 999 among them; every other code (the negative
  ones, 4 to 44, 46, 47, 49, 50, 58 to 60, 68 to 70, 78, 79, 83, 84 and 87 to 94) is the
  default, partly cloudy.
\<close>

theorem mapWmoToWeather_rules:
  "mapWmoToWeather 0 = clear \<and> mapWmoToWeather 1 = mostlyClear
   \<and> mapWmoToWeather 2 = partlyCloudy \<and> mapWmoToWeather 3 = overcast
   \<and> mapWmoToWeather 45 = fog \<and> mapWmoToWeather 48 = fog
   \<and> (51 \<le> code \<and> code \<le> 57 \<longrightarrow> mapWmoToWeather code = drizzle)
   \<and> (61 \<le> code \<and> code \<le> 67 \<longrightarrow> mapWmoToWeather code = rain)
   \<and> (71 \<le> code \<and> code \<le> 77 \<longrightarrow> mapWmoToWeather code = snow)
   \<and> (80 \<le> code \<and> code \<le> 82 \<longrightarrow> mapWmoToWeather code = showers)
   \<and> (85 \<le> code \<and> code \<le> 86 \<longrightarrow> mapWmoToWeather code = snowShowers)
   \<and> (95 \<le> code \<longrightarrow> mapWmoToWeather code = thunderstorm)
   \<and> (code < 0 \<or> (4 \<le> code \<and> code \<le> 44) \<or> code = 46 \<or> code = 47 \<or> code = 49 \<or> code = 50
        \<or> (58 \<le> code \<and> code \<le> 60) \<or> (68 \<le> code \<and> code \<le> 70) \<or> code = 78 \<or> code = 79
        \<or> code = 83 \<or> code = 84 \<or> (87 \<le> code \<and> code \<le> 94)
        \<longrightarrow> mapWmoToWeather code = partlyCloudy)
   \<and> mapWmoToWeather 61 = rain \<and> mapWmoToWeather 999 = thunderstorm"
  by (simp add: mapWmoToWeather_def)

text \<open>One code of each range, and three codes of the default.\<close>

theorem mapWmoToWeather_rules_witness:
  "mapWmoToWeather 53 = drizzle \<and> mapWmoToWeather 64 = rain \<and> mapWmoToWeather 75 = snow
   \<and> mapWmoToWeather 81 = showers \<and> mapWmoToWeather 86 = snowShowers
   \<and> mapWmoToWeather 96 = thunderstorm \<and> mapWmoToWeather 90 = partlyCloudy
   \<and> mapWmoToWeather (- 1) = partlyCloudy \<and> mapWmoToWeather 47 = partlyCloudy"
  using mapWmoToWeather_rules [of 53] mapWmoToWeather_rules [of 64] mapWmoToWeather_rules [of 75]
    mapWmoToWeather_rules [of 81] mapWmoToWeather_rules [of 86] mapWmoToWeather_rules [of 96]
    mapWmoToWeather_rules [of 90] mapWmoToWeather_rules [of "- 1"] mapWmoToWeather_rules [of 47]
  by simp

section \<open>Properties of the decoder\<close>

lemma indexOf_char:
  "indexOf xs c = (if c \<in> set xs then int (length (takeWhile (\<lambda>x. x \<noteq> c) xs)) else -1)"
  by (induction xs) (auto simp: Let_def)

lemma takeWhile_two:
  "length (takeWhile (\<lambda>x. x \<noteq> a \<and> x \<noteq> b) xs)
     = min (length (takeWhile (\<lambda>x. x \<noteq> a) xs)) (length (takeWhile (\<lambda>x. x \<noteq> b) xs))"
  by (induction xs) auto

lemma takeWhile_absent:
  "b \<notin> set xs \<Longrightarrow> takeWhile (\<lambda>x. x \<noteq> a \<and> x \<noteq> b) xs = takeWhile (\<lambda>x. x \<noteq> a) xs"
  "a \<notin> set xs \<Longrightarrow> takeWhile (\<lambda>x. x \<noteq> a \<and> x \<noteq> b) xs = takeWhile (\<lambda>x. x \<noteq> b) xs"
  by (rule takeWhile_cong; auto)+

lemma firstOf_eq:
  "firstOf xs a b =
     (if a \<in> set xs \<or> b \<in> set xs then int (length (takeWhile (\<lambda>x. x \<noteq> a \<and> x \<noteq> b) xs)) else -1)"
proof -
  consider "a \<in> set xs" "b \<in> set xs" | "a \<in> set xs" "b \<notin> set xs"
    | "a \<notin> set xs" "b \<in> set xs" | "a \<notin> set xs" "b \<notin> set xs" by blast
  then show ?thesis
  proof cases
    case 1
    then show ?thesis by (simp add: firstOf_def indexOf_char minOf_def takeWhile_two)
  qed (simp_all add: firstOf_def indexOf_char minOf_def takeWhile_absent)
qed

lemma takeWhile_lt: "\<exists>x\<in>set xs. \<not> P x \<Longrightarrow> length (takeWhile P xs) < length xs"
  by (induction xs) auto

lemma lastIndexOf_char:
  "lastIndexOf xs c =
     (if c \<in> set xs then int (length xs) - 1 - int (length (takeWhile (\<lambda>x. x \<noteq> c) (rev xs))) else -1)"
proof -
  have "length (takeWhile (\<lambda>x. x \<noteq> c) (rev xs)) < length xs" if "c \<in> set xs"
    using that takeWhile_lt[of "rev xs" "\<lambda>x. x \<noteq> c"] by auto
  then show ?thesis
    by (auto simp: lastIndexOf_def indexOf_char Let_def)
qed

lemma lastOf_eq:
  "lastOf xs a b =
     (if a \<in> set xs \<or> b \<in> set xs
      then int (length xs) - 1 - int (length (takeWhile (\<lambda>x. x \<noteq> a \<and> x \<noteq> b) (rev xs))) else -1)"
proof -
  have lt: "length (takeWhile (\<lambda>x. x \<noteq> c) (rev xs)) < length xs" if "c \<in> set xs" for c
    using that takeWhile_lt[of "rev xs" "\<lambda>x. x \<noteq> c"] by auto
  consider "a \<in> set xs" "b \<in> set xs" | "a \<in> set xs" "b \<notin> set xs"
    | "a \<notin> set xs" "b \<in> set xs" | "a \<notin> set xs" "b \<notin> set xs" by blast
  then show ?thesis
  proof cases
    case 1
    with lt[of a] lt[of b] show ?thesis
      by (simp add: lastOf_def lastIndexOf_char maxOf_def takeWhile_two)
  next
    case 2
    with lt[of a] show ?thesis
      by (simp add: lastOf_def lastIndexOf_char maxOf_def takeWhile_absent)
  next
    case 3
    with lt[of b] show ?thesis
      by (simp add: lastOf_def lastIndexOf_char maxOf_def takeWhile_absent)
  next
    case 4
    then show ?thesis by (simp add: lastOf_def lastIndexOf_char)
  qed
qed

lemma sliceFrom_drop: "0 \<le> i \<Longrightarrow> i \<le> int (length xs) \<Longrightarrow> sliceFrom xs i = drop (nat i) xs"
  by (simp add: sliceFrom_def slice_def Let_def min_def)

lemma slice_take: "0 \<le> j \<Longrightarrow> slice xs 0 j = take (nat j) xs"
  by (auto simp: slice_def Let_def min_def)

lemma rev_dropWhile_rev: "rev (dropWhile P (rev xs)) = take (length xs - length (takeWhile P (rev xs))) xs"
proof -
  have "dropWhile P (rev xs) = drop (length (takeWhile P (rev xs))) (rev xs)"
    by (rule dropWhile_eq_drop)
  then show ?thesis by (simp add: rev_drop)
qed

lemma opening_pred: "(\<lambda>c. \<not> isOpening c) = (\<lambda>x. x \<noteq> 0x7B \<and> x \<noteq> 0x5B)"
  by (auto simp: isOpening_def)

lemma closing_pred: "(\<lambda>c. \<not> isClosing c) = (\<lambda>x. x \<noteq> 0x7D \<and> x \<noteq> 0x5D)"
  by (auto simp: isClosing_def)

lemma parseJsonLenient_unfold:
  "parseJsonLenient parse rawText =
     (let text = trim rawText in
      case parse text of Some v \<Rightarrow> Inr v
      | None \<Rightarrow>
         (let start = firstOf text 0x7B 0x5B in
          if start < 0 then Inl InvalidJson
          else (let sliced = sliceFrom text start; end = lastOf sliced 0x7D 0x5D in
                if end < 0 then Inl InvalidJson
                else (case parse (slice sliced 0 (end + 1)) of Some v \<Rightarrow> Inr v | None \<Rightarrow> Inl SyntaxError))))"
  unfolding parseJsonLenient_def firstOf_def lastOf_def Let_def ..

lemma span_start:
  "firstOf text 0x7B 0x5B < 0 \<Longrightarrow> bracketSpan text = []"
proof -
  assume "firstOf text 0x7B 0x5B < 0"
  then have "\<forall>c\<in>set text. \<not> isOpening c"
    by (auto simp: firstOf_eq isOpening_def split: if_splits)
  then have d: "dropWhile (\<lambda>c. \<not> isOpening c) text = []"
    by simp
  show ?thesis unfolding bracketSpan_def d by simp
qed

lemma sliced_eq:
  assumes "\<not> firstOf text 0x7B 0x5B < 0"
  shows "sliceFrom text (firstOf text 0x7B 0x5B) = dropWhile (\<lambda>c. \<not> isOpening c) text"
proof -
  let ?k = "length (takeWhile (\<lambda>c. \<not> isOpening c) text)"
  from assms have "firstOf text 0x7B 0x5B = int ?k"
    by (auto simp: firstOf_eq opening_pred split: if_splits)
  moreover have "?k \<le> length text" by (rule length_takeWhile_le)
  ultimately show ?thesis
    by (simp add: sliceFrom_drop dropWhile_eq_drop)
qed

lemma span_end:
  "lastOf sliced 0x7D 0x5D < 0 \<Longrightarrow> rev (dropWhile (\<lambda>c. \<not> isClosing c) (rev sliced)) = []"
proof -
  assume a: "lastOf sliced 0x7D 0x5D < 0"
  have "length (takeWhile (\<lambda>x. x \<noteq> 0x7D \<and> x \<noteq> 0x5D) (rev sliced)) < length sliced"
    if "0x7D \<in> set sliced \<or> 0x5D \<in> set sliced"
    using that takeWhile_lt[of "rev sliced" "\<lambda>x. x \<noteq> 0x7D \<and> x \<noteq> 0x5D"] by auto
  with a have "0x7D \<notin> set sliced \<and> 0x5D \<notin> set sliced"
    by (auto simp: lastOf_eq split: if_splits)
  then show ?thesis by (auto simp: closing_pred)
qed

lemma span_slice:
  assumes "\<not> lastOf sliced 0x7D 0x5D < 0"
  shows "slice sliced 0 (lastOf sliced 0x7D 0x5D + 1) = rev (dropWhile (\<lambda>c. \<not> isClosing c) (rev sliced))"
    and "rev (dropWhile (\<lambda>c. \<not> isClosing c) (rev sliced)) \<noteq> []"
proof -
  let ?k = "length (takeWhile (\<lambda>c. \<not> isClosing c) (rev sliced))"
  from assms have mem: "0x7D \<in> set sliced \<or> 0x5D \<in> set sliced"
    by (auto simp: lastOf_eq split: if_splits)
  then have lt: "?k < length sliced"
    using takeWhile_lt[of "rev sliced" "\<lambda>c. \<not> isClosing c"] by (auto simp: isClosing_def)
  from mem have e: "lastOf sliced 0x7D 0x5D = int (length sliced) - 1 - int ?k"
    by (simp add: lastOf_eq closing_pred)
  have "nat (int (length sliced) - 1 - int ?k + 1) = length sliced - ?k" by simp
  with lt e show "slice sliced 0 (lastOf sliced 0x7D 0x5D + 1) = rev (dropWhile (\<lambda>c. \<not> isClosing c) (rev sliced))"
    by (simp add: slice_take rev_dropWhile_rev)
  from lt show "rev (dropWhile (\<lambda>c. \<not> isClosing c) (rev sliced)) \<noteq> []"
    by (auto simp: rev_dropWhile_rev)
qed

lemma parseJsonLenient_decodeSpec: "parseJsonLenient parse rawText = decodeSpec parse rawText"
proof (cases "parse (trim rawText)")
  case (Some v)
  then show ?thesis by (simp add: parseJsonLenient_unfold decodeSpec_def)
next
  case None
  let ?text = "trim rawText"
  show ?thesis
  proof (cases "firstOf ?text 0x7B 0x5B < 0")
    case True
    with None show ?thesis
      by (simp add: parseJsonLenient_unfold decodeSpec_def span_start)
  next
    case False
    let ?sliced = "dropWhile (\<lambda>c. \<not> isOpening c) ?text"
    have sl: "sliceFrom ?text (firstOf ?text 0x7B 0x5B) = ?sliced"
      using False by (rule sliced_eq)
    have sp: "bracketSpan ?text = rev (dropWhile (\<lambda>c. \<not> isClosing c) (rev ?sliced))"
      by (simp add: bracketSpan_def)
    show ?thesis
    proof (cases "lastOf ?sliced 0x7D 0x5D < 0")
      case True
      with None False sl sp show ?thesis
        by (simp add: parseJsonLenient_unfold decodeSpec_def span_end Let_def)
    next
      case F2: False
      from span_slice[OF F2] None False sl sp F2 show ?thesis
        by (auto simp: parseJsonLenient_unfold decodeSpec_def Let_def)
    qed
  qed
qed

lemma trim_subset: "set (trim v) \<subseteq> set v"
proof -
  have "set (trim v) \<subseteq> set (dropWhile isWhiteSpace v)"
    unfolding trim_def using set_dropWhileD[of _ isWhiteSpace "rev (dropWhile isWhiteSpace v)"] by auto
  also have "\<dots> \<subseteq> set v" using set_dropWhileD[of _ isWhiteSpace v] by auto
  finally show ?thesis .
qed

lemma bracketSpan_no_opening: "filter isOpening v = [] \<Longrightarrow> bracketSpan (trim v) = []"
proof -
  assume "filter isOpening v = []"
  then have "\<forall>c\<in>set v. \<not> isOpening c" by (simp add: filter_empty_conv)
  with trim_subset[of v] have "\<forall>c\<in>set (trim v). \<not> isOpening c" by blast
  then have d: "dropWhile (\<lambda>c. \<not> isOpening c) (trim v) = []" by simp
  show ?thesis unfolding bracketSpan_def d by simp
qed

text \<open>
  C5, as stated: any input that contains no brackets is rejected. The input \<^verbatim>\<open>1\<close> has no
  bracket and is JSON: the first, strict parse decodes it.
\<close>

theorem parseJsonLenient_bracket_free_counterexample:
  "filter isOpening (ascii ''1'') = [] \<and> filter isClosing (ascii ''1'') = []
   \<and> parseJsonLenient parseJson (ascii ''1'') = Inr (JNum 1)"
  by code_simp

text \<open>
  C5, amended: the decoder parses the trimmed input strictly; when that fails it parses
  the span from the earliest opening bracket to the latest closing bracket at or after
  it. It fails exactly when the strict parse fails and there is no opening bracket, or no
  closing bracket at or after it, or the parse of the span fails too. The input
  \<^verbatim>\<open>garbage{"a":1}trailing\<close> decodes to the object, and an input without an opening
  bracket that the strict parse rejects is rejected.
\<close>

theorem parseJsonLenient_spec:
  \<open>parseJsonLenient parse rawText = decodeSpec parse rawText
   \<and> (isl (parseJsonLenient parse rawText) \<longleftrightarrow>
        parse (trim rawText) = None
        \<and> (bracketSpan (trim rawText) = [] \<or> parse (bracketSpan (trim rawText)) = None))
   \<and> parseJsonLenient parseJson (ascii ''garbage{"a":1}trailing'') = Inr (JObj [(ascii ''a'', JNum 1)])
   \<and> (parse (trim rawText) = None \<and> filter isOpening rawText = [] \<longrightarrow>
        parseJsonLenient parse rawText = Inl InvalidJson)\<close>
proof (intro conjI impI)
  show "parseJsonLenient parse rawText = decodeSpec parse rawText"
    by (rule parseJsonLenient_decodeSpec)
  show "isl (parseJsonLenient parse rawText) \<longleftrightarrow>
        parse (trim rawText) = None
        \<and> (bracketSpan (trim rawText) = [] \<or> parse (bracketSpan (trim rawText)) = None)"
    by (auto simp: parseJsonLenient_decodeSpec decodeSpec_def split: option.splits)
  show \<open>parseJsonLenient parseJson (ascii ''garbage{"a":1}trailing'') = Inr (JObj [(ascii ''a'', JNum 1)])\<close>
    by code_simp
next
  assume "parse (trim rawText) = None \<and> filter isOpening rawText = []"
  then show "parseJsonLenient parse rawText = Inl InvalidJson"
    by (simp add: parseJsonLenient_decodeSpec decodeSpec_def bracketSpan_no_opening)
qed

text \<open>The text \<^verbatim>\<open>hello\<close> is not JSON and has no bracket.\<close>

theorem parseJsonLenient_spec_witness:
  "parseJson (trim (ascii ''hello'')) = None \<and> filter isOpening (ascii ''hello'') = []
   \<and> parseJsonLenient parseJson (ascii ''hello'') = Inl InvalidJson"
proof -
  have h: "parseJson (trim (ascii ''hello'')) = None \<and> filter isOpening (ascii ''hello'') = []"
    by code_simp
  with parseJsonLenient_spec[of parseJson "ascii ''hello''"] show ?thesis by blast
qed

section \<open>Properties of the view\<close>

text \<open>
  C1: a module parameter that is none of the four names should give the full dashboard.
  The render does not resolve the parameter: with \<^verbatim>\<open>module=banana\<close> it shows the three
  cards of the header, each with the button that closes the window, and neither the todo
  nor the agenda card, which is not the full dashboard.
\<close>

theorem render_unknown_module:
  "render False (Some (ascii ''banana'')) None = [Hero [TimeCard True, WeatherCard True, SummaryCard]]
   \<and> fullDashboard False None
       = [Hero [TimeCard False, WeatherCard False, SummaryCard], Grid [TodoCard False, AgendaCard False]]
   \<and> render False (Some (ascii ''banana'')) None \<noteq> fullDashboard False None"
  by (simp add: render_def fullDashboard_def truthy_def ascii_def)

text \<open>The four names, and the empty parameter, render as C1 says.\<close>

lemma render_known_modules:
  "render d (Some (ascii ''todo'')) p = [Grid [TodoCard True]]"
  "render d (Some (ascii ''agenda'')) p = [Grid [AgendaCard True]]"
  "render d (Some (ascii ''time'')) p = [Hero [TimeCard True]]"
  "render d (Some (ascii ''weather'')) p = [Hero [WeatherCard True]]"
  "render d (Some []) p = fullDashboard d p"
  by (simp_all add: render_def fullDashboard_def truthy_def ascii_def)

section \<open>Properties of the lists and the city editor\<close>

lemma saveEffects_same: "saveEffects e s s = s"
  by (simp add: saveEffects_def)

lemma saveEffects_frame:
  "todos (saveEffects e prev s) = todos s"
  "agenda (saveEffects e prev s) = agenda s"
  "city (saveEffects e prev s) = city s"
  "cityMode (saveEffects e prev s) = cityMode s"
  "idCalls (saveEffects e prev s) = idCalls s"
  "isEditingCity (saveEffects e prev s) = isEditingCity s"
  by (simp_all add: saveEffects_def saveStorage_def Let_def)

lemma createId_fresh:
  assumes "inj (createId e)" and "\<forall>item\<in>set xs. \<exists>k<n. f item = createId e k"
  shows "createId e n \<notin> f ` set xs"
proof
  assume "createId e n \<in> f ` set xs"
  then obtain item where "item \<in> set xs" "f item = createId e n" by auto
  with assms(2) obtain k where "k < n" "createId e k = createId e n" by force
  with assms(1) show False by (auto dest: injD)
qed

text \<open>
  What adding a todo does: with an empty title or an empty time in the form, nothing, the
  storage included. Otherwise the collection gets exactly one new last item, with the
  title, time and priority of the form, not done, and with the identifier that
  \<^verbatim>\<open>createId\<close> returns: that of \<^verbatim>\<open>crypto.randomUUID\<close> when there is one, the time in
  milliseconds otherwise. The items before it stay as they are.
\<close>

lemma addTodo_appends:
  "(tf_title (todoForm s) = [] \<or> tf_time (todoForm s) = [] \<longrightarrow> dispatch e AddTodo s = s)
   \<and> (tf_title (todoForm s) \<noteq> [] \<and> tf_time (todoForm s) \<noteq> [] \<longrightarrow>
        todos (dispatch e AddTodo s)
          = todos s @ [\<lparr>todo_id = (case randomUUID e of
                                       Some uuid \<Rightarrow> uuid (idCalls s)
                                     | None \<Rightarrow> numberToString e (dateNow e (idCalls s))),
                        todo_title = tf_title (todoForm s),
                        todo_time = tf_time (todoForm s), todo_priority = tf_priority (todoForm s),
                        todo_done = False\<rparr>]
        \<and> idCalls (dispatch e AddTodo s) = Suc (idCalls s))"
proof (intro conjI impI)
  assume "tf_title (todoForm s) = [] \<or> tf_time (todoForm s) = []"
  then have "addTodo e s = s" by (auto simp: addTodo_def)
  then show "dispatch e AddTodo s = s" by (simp add: dispatch_def saveEffects_same)
next
  assume a: "tf_title (todoForm s) \<noteq> [] \<and> tf_time (todoForm s) \<noteq> []"
  then show "todos (dispatch e AddTodo s)
          = todos s @ [\<lparr>todo_id = (case randomUUID e of
                                       Some uuid \<Rightarrow> uuid (idCalls s)
                                     | None \<Rightarrow> numberToString e (dateNow e (idCalls s))),
                        todo_title = tf_title (todoForm s),
                        todo_time = tf_time (todoForm s), todo_priority = tf_priority (todoForm s),
                        todo_done = False\<rparr>]"
    by (simp add: dispatch_def saveEffects_frame addTodo_def createId_def)
  from a show "idCalls (dispatch e AddTodo s) = Suc (idCalls s)"
    by (simp add: dispatch_def saveEffects_frame addTodo_def)
qed

lemma fallbackEnv_createId: "createId fallbackEnv k = ascii ''1730000000000''"
  by (simp add: createId_def fallbackEnv_def demoEnv_def showInt_def decimal.simps ascii_def)

lemma repeatState_todos:
  "todos repeatState = [\<lparr>todo_id = createId fallbackEnv 0, todo_title = ascii ''Buy milk'',
                         todo_time = ascii ''13:00'', todo_priority = [0x4E2D], todo_done = False\<rparr>]"
  unfolding repeatState_def run_def
  by (simp add: dispatch_def saveEffects_frame saveEffects_def saveStorage_def addTodo_def
      emptyState_def fallbackEnv_def demoEnv_def ascii_def Let_def)

lemma repeatState_form:
  "todoForm repeatState = \<lparr>tf_title = ascii ''Call home'', tf_time = ascii ''18:30'', tf_priority = [0x4E2D]\<rparr>"
  unfolding repeatState_def run_def
  by (simp add: dispatch_def saveEffects_frame saveEffects_def saveStorage_def addTodo_def
      emptyState_def fallbackEnv_def demoEnv_def ascii_def Let_def)

lemma repeatState_idCalls: "idCalls repeatState = 1"
  unfolding repeatState_def run_def
  by (simp add: dispatch_def saveEffects_frame saveEffects_def saveStorage_def addTodo_def
      emptyState_def fallbackEnv_def demoEnv_def ascii_def Let_def)

text \<open>
  C6: the appended item should carry a fresh identifier. In a window without
  \<^verbatim>\<open>crypto.randomUUID\<close> the identifier is the time in milliseconds: a second todo added
  in the same millisecond as the first gets the identifier that the first already has.
\<close>

theorem addTodo_repeats_id:
  "randomUUID fallbackEnv = None
   \<and> map todo_id (todos repeatState) = [ascii ''1730000000000'']
   \<and> tf_title (todoForm repeatState) = ascii ''Call home''
   \<and> tf_time (todoForm repeatState) = ascii ''18:30''
   \<and> todos (dispatch fallbackEnv AddTodo repeatState)
        = [\<lparr>todo_id = ascii ''1730000000000'', todo_title = ascii ''Buy milk'',
             todo_time = ascii ''13:00'', todo_priority = [0x4E2D], todo_done = False\<rparr>,
           \<lparr>todo_id = ascii ''1730000000000'', todo_title = ascii ''Call home'',
             todo_time = ascii ''18:30'', todo_priority = [0x4E2D], todo_done = False\<rparr>]"
proof -
  have ne: "ascii ''Call home'' \<noteq> []" "ascii ''18:30'' \<noteq> []" by (simp_all add: ascii_def)
  have "todos (dispatch fallbackEnv AddTodo repeatState)
        = todos repeatState @ [\<lparr>todo_id = createId fallbackEnv 1, todo_title = ascii ''Call home'',
             todo_time = ascii ''18:30'', todo_priority = [0x4E2D], todo_done = False\<rparr>]"
    using ne by (simp add: dispatch_def saveEffects_frame addTodo_def repeatState_form repeatState_idCalls)
  then show ?thesis
    by (simp add: repeatState_todos repeatState_form fallbackEnv_createId)
       (simp add: fallbackEnv_def)
qed

lemma demoEnv_createId: "createId demoEnv k = ascii ''id-'' @ replicate (Suc k) 0x31"
  by (simp add: createId_def demoEnv_def)

lemma demoEnv_createId_inj: "inj (createId demoEnv)"
proof (rule injI)
  fix j k assume "createId demoEnv j = createId demoEnv k"
  then have "length (createId demoEnv j) = length (createId demoEnv k)" by simp
  then show "j = k" by (simp add: demoEnv_createId)
qed

text \<open>
  C7: with an empty title or an empty time, adding an agenda entry changes nothing.
  Otherwise the agenda gets exactly one new last entry, whose location is that of the form
  when it is not empty and the default location otherwise; a standup at 09:00 with no
  location gets exactly the default.
\<close>

theorem addAgenda_spec:
  "(af_title (agendaForm s) = [] \<or> af_time (agendaForm s) = [] \<longrightarrow> dispatch e AddAgenda s = s)
   \<and> (af_title (agendaForm s) \<noteq> [] \<and> af_time (agendaForm s) \<noteq> [] \<longrightarrow>
        agenda (dispatch e AddAgenda s)
          = agenda s @ [\<lparr>agenda_id = createId e (idCalls s),
                         agenda_title = af_title (agendaForm s),
                         agenda_time = af_time (agendaForm s),
                         agenda_location = (if af_location (agendaForm s) \<noteq> []
                                            then af_location (agendaForm s)
                                            else [0x5F85, 0x5B9A])\<rparr>])
   \<and> map agenda_location
        (agenda (run demoEnv [AgendaTitle (ascii ''Standup''), AgendaTime (ascii ''09:00''),
                              AgendaLocation [], AddAgenda] emptyState))
       = [[0x5F85, 0x5B9A]]"
proof (intro conjI impI)
  assume "af_title (agendaForm s) = [] \<or> af_time (agendaForm s) = []"
  then have "addAgenda e s = s" by (auto simp: addAgenda_def)
  then show "dispatch e AddAgenda s = s" by (simp add: dispatch_def saveEffects_same)
next
  assume "af_title (agendaForm s) \<noteq> [] \<and> af_time (agendaForm s) \<noteq> []"
  then show "agenda (dispatch e AddAgenda s)
          = agenda s @ [\<lparr>agenda_id = createId e (idCalls s),
                         agenda_title = af_title (agendaForm s),
                         agenda_time = af_time (agendaForm s),
                         agenda_location = (if af_location (agendaForm s) \<noteq> []
                                            then af_location (agendaForm s)
                                            else [0x5F85, 0x5B9A])\<rparr>]"
    by (simp add: dispatch_def saveEffects_frame addAgenda_def orElse_def defaultLocation_def)
next
  show "map agenda_location
        (agenda (run demoEnv [AgendaTitle (ascii ''Standup''), AgendaTime (ascii ''09:00''),
                              AgendaLocation [], AddAgenda] emptyState))
       = [[0x5F85, 0x5B9A]]"
    by code_simp
qed

lemma standupState_form:
  "agendaForm standupState = \<lparr>af_title = ascii ''Standup'', af_time = ascii ''09:00'', af_location = ascii ''Room 2''\<rparr>"
  by code_simp

lemma standupState_agenda: "agenda standupState = []" "idCalls standupState = 0"
  by code_simp+

text \<open>The empty form, and a standup with a location.\<close>

theorem addAgenda_spec_witness:
  "af_title (agendaForm emptyState) = [] \<and> dispatch demoEnv AddAgenda emptyState = emptyState
   \<and> af_title (agendaForm standupState) \<noteq> [] \<and> af_time (agendaForm standupState) \<noteq> []
   \<and> agenda (dispatch demoEnv AddAgenda standupState)
       = [\<lparr>agenda_id = ascii ''id-1'', agenda_title = ascii ''Standup'',
            agenda_time = ascii ''09:00'', agenda_location = ascii ''Room 2''\<rparr>]"
proof -
  have h1: "af_title (agendaForm emptyState) = []" by (simp add: emptyState_def)
  have h2: "af_title (agendaForm standupState) \<noteq> [] \<and> af_time (agendaForm standupState) \<noteq> []"
    by (simp add: standupState_form ascii_def)
  from addAgenda_spec[of emptyState demoEnv] h1
  have c1: "dispatch demoEnv AddAgenda emptyState = emptyState" by blast
  from addAgenda_spec[of standupState demoEnv] h2
  have "agenda (dispatch demoEnv AddAgenda standupState)
          = agenda standupState @ [\<lparr>agenda_id = createId demoEnv (idCalls standupState),
                         agenda_title = af_title (agendaForm standupState),
                         agenda_time = af_time (agendaForm standupState),
                         agenda_location = (if af_location (agendaForm standupState) \<noteq> []
                                            then af_location (agendaForm standupState)
                                            else [0x5F85, 0x5B9A])\<rparr>]"
    by blast
  then have c2: "agenda (dispatch demoEnv AddAgenda standupState)
       = [\<lparr>agenda_id = ascii ''id-1'', agenda_title = ascii ''Standup'',
            agenda_time = ascii ''09:00'', agenda_location = ascii ''Room 2''\<rparr>]"
    by (simp add: standupState_form standupState_agenda demoEnv_createId ascii_def)
  from h1 h2 c1 c2 show ?thesis by blast
qed

text \<open>
  C10: committing the city editor with an input that is empty after trimming keeps the
  city; with any other input the city is the trimmed input. In both cases the mode becomes
  manual and the editor closes.
\<close>

theorem commitCity_spec:
  "(trim input = [] \<longrightarrow> city (dispatch e (CommitCity input) s) = city s)
   \<and> (trim input \<noteq> [] \<longrightarrow> city (dispatch e (CommitCity input) s) = trim input)
   \<and> cityMode (dispatch e (CommitCity input) s) = Manual
   \<and> isEditingCity (dispatch e (CommitCity input) s) = False"
  by (simp add: dispatch_def saveEffects_frame commitCity_def orElse_def)

text \<open>An input of spaces, and \<^verbatim>\<open>Paris\<close> between spaces.\<close>

theorem commitCity_spec_witness:
  "trim (ascii ''   '') = [] \<and> city (dispatch demoEnv (CommitCity (ascii ''   '')) emptyState) = [0x4E0A, 0x6D77]
   \<and> trim (ascii '' Paris '') \<noteq> []
   \<and> city (dispatch demoEnv (CommitCity (ascii '' Paris '')) emptyState) = ascii ''Paris''
   \<and> cityMode (dispatch demoEnv (CommitCity (ascii ''   '')) emptyState) = Manual"
proof -
  have h1: "trim (ascii ''   '') = []" by (simp add: trim_def ascii_def isWhiteSpace_def)
  have h2: "trim (ascii '' Paris '') = ascii ''Paris''" by (simp add: trim_def ascii_def isWhiteSpace_def)
  have h3: "ascii ''Paris'' \<noteq> []" by (simp add: ascii_def)
  have c: "city emptyState = [0x4E0A, 0x6D77]" by (simp add: emptyState_def)
  from commitCity_spec[of "ascii ''   ''" demoEnv emptyState] commitCity_spec[of "ascii '' Paris ''" demoEnv emptyState]
    h1 h2 h3 c show ?thesis by simp
qed

section \<open>Properties of the persistence\<close>

lemma sameLists_refl: "sameLists s s"
  by (simp add: sameLists_def)

lemma sameLists_trans: "sameLists s s' \<Longrightarrow> sameLists s' s'' \<Longrightarrow> sameLists s s''"
  by (simp add: sameLists_def)

lemma sameCity_trans: "sameCity s s' \<Longrightarrow> sameCity s' s'' \<Longrightarrow> sameCity s s''"
  by (simp add: sameCity_def)

lemma primaryPath_same:
  "sameLists s (snd (primaryPath e n s))" "sameCity s (snd (primaryPath e n s))"
  "weather (snd (primaryPath e n s)) = weather s"
  "weatherStatus (snd (primaryPath e n s)) = weatherStatus s"
  by (simp_all add: primaryPath_def logRequest_def sameLists_def sameCity_def Let_def
        split: option.splits)

lemma secondaryPath_same:
  "sameLists s (snd (secondaryPath e n s))" "sameCity s (snd (secondaryPath e n s))"
  "weather (snd (secondaryPath e n s)) = weather s"
  "weatherStatus (snd (secondaryPath e n s)) = weatherStatus s"
  by (simp_all add: secondaryPath_def logRequest_def sameLists_def sameCity_def Let_def
        split: option.splits)

lemma fetchWeather_cases:
  "fetchWeather e c s =
     (let n = normalizeCityName e c; p = primaryPath e n (s\<lparr>weatherStatus := Loading\<rparr>);
          q = secondaryPath e n (snd p)
      in if n = [] then (False, s\<lparr>weatherStatus := Error\<rparr>)
         else if fst p \<noteq> None then (True, (snd p)\<lparr>weather := fst p, weatherStatus := Ready\<rparr>)
         else if fst q \<noteq> None then (True, (snd q)\<lparr>weather := fst q, weatherStatus := Ready\<rparr>)
         else (False, (snd q)\<lparr>weatherStatus := Error\<rparr>))"
  by (auto simp: fetchWeather_def Let_def split: prod.splits option.splits)

lemma fetchWeather_same:
  "sameLists s (snd (fetchWeather e c s))" "sameCity s (snd (fetchWeather e c s))"
proof -
  let ?n = "normalizeCityName e c"
  let ?s0 = "s\<lparr>weatherStatus := Loading\<rparr>"
  let ?p = "primaryPath e ?n ?s0"
  let ?q = "secondaryPath e ?n (snd ?p)"
  have a: "sameLists s ?s0" "sameCity s ?s0" by (simp_all add: sameLists_def sameCity_def)
  have b: "sameLists s (snd ?p)" "sameCity s (snd ?p)"
    using a primaryPath_same(1,2)[of ?s0 e ?n] sameLists_trans sameCity_trans by blast+
  have c: "sameLists s (snd ?q)" "sameCity s (snd ?q)"
    using b secondaryPath_same(1,2)[of "snd ?p" e ?n] sameLists_trans sameCity_trans by blast+
  from b c show "sameLists s (snd (fetchWeather e c s))" "sameCity s (snd (fetchWeather e c s))"
    by (simp_all add: fetchWeather_cases Let_def sameLists_def sameCity_def)
qed

lemma tryEndpoint_same: "sameLists s (snd (tryEndpoint e ep s))" "sameCity s (snd (tryEndpoint e ep s))"
proof -
  let ?s1 = "logRequest (IpEndpoint ep) s"
  have a: "sameLists s ?s1" "sameCity s ?s1" by (simp_all add: sameLists_def sameCity_def logRequest_def)
  have b: "sameLists s (snd (fetchWeather e c ?s1))" "sameCity s (snd (fetchWeather e c ?s1))" for c
    using a fetchWeather_same[of ?s1 e c] sameLists_trans sameCity_trans by blast+
  from a b show "sameLists s (snd (tryEndpoint e ep s))" "sameCity s (snd (tryEndpoint e ep s))"
    by (simp_all add: tryEndpoint_def Let_def split: option.splits)
qed

lemma locateLoop_same: "sameLists s (snd (locateLoop e eps s))"
proof (induction eps arbitrary: s)
  case Nil
  show ?case by (simp add: sameLists_refl)
next
  case (Cons ep eps)
  obtain r s2 where t: "tryEndpoint e ep s = (r, s2)" by (cases "tryEndpoint e ep s")
  with tryEndpoint_same(1)[of s e ep] have a: "sameLists s s2" by simp
  show ?case
  proof (cases r)
    case None
    with t a Cons.IH[of s2] show ?thesis by (auto intro: sameLists_trans)
  next
    case (Some c)
    with t a show ?thesis by (simp add: sameLists_def)
  qed
qed

lemma locateWeather_same: "sameLists s (locateWeather e s)"
proof -
  have "sameLists s (s\<lparr>isLocating := True\<rparr>)" by (simp add: sameLists_def)
  with locateLoop_same[of "s\<lparr>isLocating := True\<rparr>" e ipEndpoints]
  have "sameLists s (snd (locateLoop e ipEndpoints (s\<lparr>isLocating := True\<rparr>)))"
    by (rule sameLists_trans[rotated])
  then show ?thesis by (simp add: locateWeather_def sameLists_def)
qed

lemma handle_storage: "storage (handle e ev s) = storage s"
proof (cases ev)
  case Locate
  with locateWeather_same[of s e] show ?thesis by (simp add: sameLists_def)
next
  case (FetchWeather c)
  with fetchWeather_same(1)[of s e c] show ?thesis by (simp add: sameLists_def)
qed (simp_all add: addTodo_def toggleTodo_def deleteTodo_def addAgenda_def deleteAgenda_def
       commitCity_def)

lemma keys_distinct:
  "todosKey \<noteq> agendaKey" "todosKey \<noteq> cityKey" "todosKey \<noteq> cityModeKey"
  "agendaKey \<noteq> cityKey" "agendaKey \<noteq> cityModeKey" "cityKey \<noteq> cityModeKey"
  by (simp_all add: todosKey_def agendaKey_def cityKey_def cityModeKey_def ascii_def)

lemma mountEffects_persisted: "persisted e (mountEffects e s)"
  using keys_distinct by (simp add: persisted_def mountEffects_def saveStorage_def)

lemma saveEffects_persisted:
  assumes "persisted e prev" and "storage s = storage prev"
  shows "persisted e (saveEffects e prev s)"
  using assms keys_distinct keys_distinct[symmetric]
  by (simp add: persisted_def saveEffects_def saveStorage_def Let_def)

lemma dispatch_persisted: "persisted e s \<Longrightarrow> persisted e (dispatch e ev s)"
  unfolding dispatch_def by (rule saveEffects_persisted) (simp_all add: handle_storage)

lemma run_persisted: "persisted e s \<Longrightarrow> persisted e (run e evs s)"
  unfolding run_def by (induction evs arbitrary: s) (simp_all add: dispatch_persisted)

text \<open>
  C2, as stated: every operation writes the collection to the storage before it returns.
  \<^verbatim>\<open>addTodo\<close> does not: with the form filled in, the handler leaves a collection of one
  item and a storage that still holds the serialization of the empty one. The write is
  the work of the effect that runs after the render.
\<close>

theorem addTodo_not_saved_counterexample:
  "storage (addTodo demoEnv filledState) todosKey = Some (ascii ''[]'')
   \<and> todos (addTodo demoEnv filledState) \<noteq> []
   \<and> \<not> persisted demoEnv (addTodo demoEnv filledState)"
  by code_simp

text \<open>
  C2, amended: after the first render, and after every sequence of events each followed
  by the saving effects of its render, the storage holds under each of the four keys the
  serialization of the value in memory. No handler writes the storage itself.
\<close>

theorem saved_after_effects:
  "persisted e (run e evs (mountEffects e s)) \<and> storage (handle e ev s) = storage s"
  by (simp add: run_persisted mountEffects_persisted handle_storage)

section \<open>Properties of the identifiers\<close>

lemma saveEffects_ids: "idsGenerated e (saveEffects e prev s) = idsGenerated e s"
  by (simp add: idsGenerated_def saveEffects_def saveStorage_def Let_def)

lemma sameLists_ids: "sameLists s s' \<Longrightarrow> idsGenerated e s \<Longrightarrow> idsGenerated e s'"
  by (simp add: sameLists_def idsGenerated_def)

lemma ids_bump:
  "\<forall>item\<in>set xs. \<exists>k<n. f item = g k \<Longrightarrow> \<forall>item\<in>set xs. \<exists>k<Suc n. f item = g k"
  by (meson less_SucI)

lemma addTodo_ids:
  assumes "inj (createId e)" and "idsGenerated e s"
  shows "idsGenerated e (addTodo e s)"
proof (cases "tf_title (todoForm s) = [] \<or> tf_time (todoForm s) = []")
  case True
  then have "addTodo e s = s" by (auto simp: addTodo_def)
  with assms(2) show ?thesis by simp
next
  case False
  let ?new = "\<lparr>todo_id = createId e (idCalls s), todo_title = tf_title (todoForm s),
               todo_time = tf_time (todoForm s), todo_priority = tf_priority (todoForm s),
               todo_done = False\<rparr>"
  from False have f: "todos (addTodo e s) = todos s @ [?new]" "agenda (addTodo e s) = agenda s"
    "idCalls (addTodo e s) = Suc (idCalls s)"
    by (simp_all add: addTodo_def)
  from assms(2) have g: "\<forall>item\<in>set (todos s). \<exists>k<idCalls s. todo_id item = createId e k"
    "\<forall>item\<in>set (agenda s). \<exists>k<idCalls s. agenda_id item = createId e k"
    "distinct (map todo_id (todos s))" "distinct (map agenda_id (agenda s))"
    by (simp_all add: idsGenerated_def)
  from assms(1) g(1) have fresh: "createId e (idCalls s) \<notin> todo_id ` set (todos s)"
    by (rule createId_fresh)
  have 1: "\<forall>item\<in>set (todos s @ [?new]). \<exists>k<Suc (idCalls s). todo_id item = createId e k"
    using ids_bump[OF g(1)] by auto
  have 2: "distinct (map todo_id (todos s @ [?new]))"
    using g(3) fresh by simp
  show ?thesis
    unfolding idsGenerated_def f using 1 2 ids_bump[OF g(2)] g(4) by blast
qed

lemma addAgenda_ids:
  assumes "inj (createId e)" and "idsGenerated e s"
  shows "idsGenerated e (addAgenda e s)"
proof (cases "af_title (agendaForm s) = [] \<or> af_time (agendaForm s) = []")
  case True
  then have "addAgenda e s = s" by (auto simp: addAgenda_def)
  with assms(2) show ?thesis by simp
next
  case False
  let ?new = "\<lparr>agenda_id = createId e (idCalls s), agenda_title = af_title (agendaForm s),
               agenda_time = af_time (agendaForm s),
               agenda_location = orElse (af_location (agendaForm s)) defaultLocation\<rparr>"
  from False have f: "agenda (addAgenda e s) = agenda s @ [?new]" "todos (addAgenda e s) = todos s"
    "idCalls (addAgenda e s) = Suc (idCalls s)"
    by (simp_all add: addAgenda_def)
  from assms(2) have g: "\<forall>item\<in>set (todos s). \<exists>k<idCalls s. todo_id item = createId e k"
    "\<forall>item\<in>set (agenda s). \<exists>k<idCalls s. agenda_id item = createId e k"
    "distinct (map todo_id (todos s))" "distinct (map agenda_id (agenda s))"
    by (simp_all add: idsGenerated_def)
  from assms(1) g(2) have fresh: "createId e (idCalls s) \<notin> agenda_id ` set (agenda s)"
    by (rule createId_fresh)
  have 1: "\<forall>item\<in>set (agenda s @ [?new]). \<exists>k<Suc (idCalls s). agenda_id item = createId e k"
    using ids_bump[OF g(2)] by auto
  have 2: "distinct (map agenda_id (agenda s @ [?new]))"
    using g(4) fresh by simp
  show ?thesis
    unfolding idsGenerated_def f using 1 2 ids_bump[OF g(1)] g(3) by blast
qed

lemma toggle_ids:
  "map todo_id (map (\<lambda>item. if todo_id item = i then item\<lparr>todo_done := \<not> todo_done item\<rparr> else item) xs)
     = map todo_id xs"
  by (induction xs) auto

lemma toggleTodo_ids: "idsGenerated e s \<Longrightarrow> idsGenerated e (toggleTodo i s)"
proof -
  assume a: "idsGenerated e s"
  let ?f = "\<lambda>item. if todo_id item = i then item\<lparr>todo_done := \<not> todo_done item\<rparr> else item"
  have f: "todos (toggleTodo i s) = map ?f (todos s)" "agenda (toggleTodo i s) = agenda s"
    "idCalls (toggleTodo i s) = idCalls s"
    by (simp_all add: toggleTodo_def)
  have m: "map todo_id (map ?f (todos s)) = map todo_id (todos s)" by (rule toggle_ids)
  from a have g: "\<forall>item\<in>set (todos s). \<exists>k<idCalls s. todo_id item = createId e k"
    "\<forall>item\<in>set (agenda s). \<exists>k<idCalls s. agenda_id item = createId e k"
    "distinct (map todo_id (todos s))" "distinct (map agenda_id (agenda s))"
    by (simp_all add: idsGenerated_def)
  have 1: "\<forall>item\<in>set (map ?f (todos s)). \<exists>k<idCalls s. todo_id item = createId e k"
    using g(1) by auto
  show ?thesis
    unfolding idsGenerated_def f m using 1 g by blast
qed

lemma delete_ids:
  "idsGenerated e s \<Longrightarrow> idsGenerated e (deleteTodo i s)"
  "idsGenerated e s \<Longrightarrow> idsGenerated e (deleteAgenda i s)"
  by (auto simp: idsGenerated_def deleteTodo_def deleteAgenda_def distinct_map_filter)

lemma handle_ids:
  assumes "inj (createId e)" and "idsGenerated e s"
  shows "idsGenerated e (handle e ev s)"
proof (cases ev)
  case AddTodo
  with assms show ?thesis by (simp add: addTodo_ids)
next
  case AddAgenda
  with assms show ?thesis by (simp add: addAgenda_ids)
next
  case (ToggleTodo i)
  with assms show ?thesis by (simp add: toggleTodo_ids)
next
  case (DeleteTodo i)
  with assms show ?thesis by (simp add: delete_ids)
next
  case (DeleteAgenda i)
  with assms show ?thesis by (simp add: delete_ids)
next
  case Locate
  with assms(2) locateWeather_same[of s e] show ?thesis by (simp add: sameLists_ids)
next
  case (FetchWeather c)
  with assms(2) fetchWeather_same(1)[of s e c] show ?thesis by (simp add: sameLists_ids)
next
  case (CommitCity v)
  with assms(2) show ?thesis by (simp add: commitCity_def idsGenerated_def)
qed (use assms(2) in \<open>simp_all add: idsGenerated_def\<close>)

lemma run_ids: "inj (createId e) \<Longrightarrow> idsGenerated e s \<Longrightarrow> idsGenerated e (run e evs s)"
  unfolding run_def
  by (induction evs arbitrary: s) (simp_all add: dispatch_def saveEffects_ids handle_ids)

text \<open>
  With an identifier generator that never returns the same identifier twice, every
  sequence of events from empty collections leaves the identifiers of the todos pairwise
  distinct, and those of the agenda entries.
\<close>

lemma ids_unique:
  assumes "inj (createId e)" and "todos s = []" and "agenda s = []"
  shows "distinct (map todo_id (todos (run e evs s)))
         \<and> distinct (map agenda_id (agenda (run e evs s)))"
proof -
  from assms(2,3) have "idsGenerated e s" by (simp add: idsGenerated_def)
  with assms(1) have "idsGenerated e (run e evs s)" by (rule run_ids)
  then show ?thesis by (simp add: idsGenerated_def)
qed

text \<open>
  Without \<^verbatim>\<open>crypto.randomUUID\<close> the identifier is the time in milliseconds: two identifiers
  made in the same millisecond are equal.
\<close>

lemma createId_fallback_repeats:
  "randomUUID e = None \<Longrightarrow> dateNow e j = dateNow e k \<Longrightarrow> createId e j = createId e k"
  by (simp add: createId_def)

text \<open>
  C8: the identifiers of a collection should stay pairwise distinct. In a window without
  \<^verbatim>\<open>crypto.randomUUID\<close>, two todos added from the empty collections in the same
  millisecond have the same identifier.
\<close>

theorem ids_repeat_in_one_millisecond:
  "randomUUID fallbackEnv = None \<and> todos emptyState = [] \<and> agenda emptyState = []
   \<and> map todo_id (todos (run fallbackEnv sameMillisecond emptyState))
        = [ascii ''1730000000000'', ascii ''1730000000000'']
   \<and> \<not> distinct (map todo_id (todos (run fallbackEnv sameMillisecond emptyState)))"
proof -
  have r: "run fallbackEnv sameMillisecond emptyState = dispatch fallbackEnv AddTodo repeatState"
    by (simp add: run_def sameMillisecond_def repeatState_def)
  have ne: "ascii ''Call home'' \<noteq> []" "ascii ''18:30'' \<noteq> []" by (simp_all add: ascii_def)
  have "todos (dispatch fallbackEnv AddTodo repeatState)
        = todos repeatState @ [\<lparr>todo_id = createId fallbackEnv 1, todo_title = ascii ''Call home'',
             todo_time = ascii ''18:30'', todo_priority = [0x4E2D], todo_done = False\<rparr>]"
    using ne by (simp add: dispatch_def saveEffects_frame addTodo_def repeatState_form repeatState_idCalls)
  then have "map todo_id (todos (run fallbackEnv sameMillisecond emptyState))
        = [ascii ''1730000000000'', ascii ''1730000000000'']"
    by (simp add: r repeatState_todos fallbackEnv_createId)
  then show ?thesis
    by (simp add: emptyState_def) (simp add: fallbackEnv_def)
qed

section \<open>Properties of the weather requests\<close>

lemma primaryPath_requests:
  "\<exists>mid. requests (snd (primaryPath e n s)) = requests s @ Geocoding n # mid
         \<and> concat (map endpointOf mid) = []"
  by (simp add: primaryPath_def logRequest_def Let_def split: option.splits)

lemma secondaryPath_requests:
  "requests (snd (secondaryPath e n s)) = requests s @ [Wttr n]"
  by (simp add: secondaryPath_def logRequest_def Let_def split: option.splits)

lemma primaryPath_city: "fst (primaryPath e n s) = Some info \<Longrightarrow> w_city info = n"
  by (auto simp: primaryPath_def Let_def split: option.splits)

lemma secondaryPath_city: "fst (secondaryPath e n s) = Some info \<Longrightarrow> w_city info = n"
  by (auto simp: secondaryPath_def Let_def split: option.splits)

text \<open>
  C4: when \<^verbatim>\<open>fetchWeather\<close> fails, the status is the error status and the stored weather
  is the one from before. When the primary path fails for a city that is not empty, the
  request of the secondary path follows those of the primary path, and the result is the
  success of the secondary path.
\<close>

theorem fetchWeather_fallback:
  assumes "fetchWeather e c s = (ok, s')"
  shows "(\<not> ok \<longrightarrow> weatherStatus s' = Error \<and> weather s' = weather s)
       \<and> (normalizeCityName e c \<noteq> []
            \<and> fst (primaryPath e (normalizeCityName e c) (s\<lparr>weatherStatus := Loading\<rparr>)) = None \<longrightarrow>
          (\<exists>mid. requests s' = requests s @ Geocoding (normalizeCityName e c) # mid
                                 @ [Wttr (normalizeCityName e c)])
          \<and> (ok \<longleftrightarrow> fst (secondaryPath e (normalizeCityName e c)
                        (snd (primaryPath e (normalizeCityName e c) (s\<lparr>weatherStatus := Loading\<rparr>))))
                    \<noteq> None))"
proof -
  let ?n = "normalizeCityName e c"
  let ?s0 = "s\<lparr>weatherStatus := Loading\<rparr>"
  let ?p = "primaryPath e ?n ?s0"
  let ?q = "secondaryPath e ?n (snd ?p)"
  have wq: "weather (snd ?q) = weather s"
    by (simp add: secondaryPath_same primaryPath_same)
  obtain mid where mid: "requests (snd ?p) = requests s @ Geocoding ?n # mid"
    using primaryPath_requests[of e ?n ?s0] by auto
  have rq: "requests (snd ?q) = requests s @ Geocoding ?n # mid @ [Wttr ?n]"
    by (simp add: secondaryPath_requests mid)
  from assms have r: "(ok, s') =
      (if ?n = [] then (False, s\<lparr>weatherStatus := Error\<rparr>)
       else if fst ?p \<noteq> None then (True, (snd ?p)\<lparr>weather := fst ?p, weatherStatus := Ready\<rparr>)
       else if fst ?q \<noteq> None then (True, (snd ?q)\<lparr>weather := fst ?q, weatherStatus := Ready\<rparr>)
       else (False, (snd ?q)\<lparr>weatherStatus := Error\<rparr>))"
    by (simp add: fetchWeather_cases Let_def)
  show ?thesis
  proof (rule conjI; rule impI)
    assume "\<not> ok"
    with r wq show "weatherStatus s' = Error \<and> weather s' = weather s"
      by (auto split: if_splits)
  next
    assume a: "?n \<noteq> [] \<and> fst ?p = None"
    with r rq have 1: "\<exists>mid. requests s' = requests s @ Geocoding ?n # mid @ [Wttr ?n]"
      by (auto split: if_splits)
    from a r have 2: "ok \<longleftrightarrow> fst ?q \<noteq> None"
      by (auto split: if_splits)
    from 1 2 show "(\<exists>mid. requests s' = requests s @ Geocoding ?n # mid @ [Wttr ?n])
          \<and> (ok \<longleftrightarrow> fst ?q \<noteq> None)" by (rule conjI)
  qed
qed

lemma atlantis:
  "normalizeCityName locateEnv (ascii ''Atlantis'') = ascii ''Atlantis''"
  by code_simp

lemma atlantis_primary:
  "fst (primaryPath locateEnv (ascii ''Atlantis'') (emptyState\<lparr>weatherStatus := Loading\<rparr>)) = None"
  by code_simp

lemma atlantis_requests:
  "requests (snd (fetchWeather locateEnv (ascii ''Atlantis'') emptyState))
     = [Geocoding (ascii ''Atlantis''), Wttr (ascii ''Atlantis'')]"
  by code_simp

text \<open>A city that the geocoder does not know, on a network where the text report is rejected.\<close>

theorem fetchWeather_fallback_witness:
  "normalizeCityName locateEnv (ascii ''Atlantis'') \<noteq> []
   \<and> fst (primaryPath locateEnv (normalizeCityName locateEnv (ascii ''Atlantis''))
            (emptyState\<lparr>weatherStatus := Loading\<rparr>)) = None
   \<and> \<not> fst (fetchWeather locateEnv (ascii ''Atlantis'') emptyState)
   \<and> weatherStatus (snd (fetchWeather locateEnv (ascii ''Atlantis'') emptyState)) = Error
   \<and> weather (snd (fetchWeather locateEnv (ascii ''Atlantis'') emptyState)) = weather emptyState
   \<and> requests (snd (fetchWeather locateEnv (ascii ''Atlantis'') emptyState))
       = [Geocoding (ascii ''Atlantis''), Wttr (ascii ''Atlantis'')]"
proof -
  let ?r = "fetchWeather locateEnv (ascii ''Atlantis'') emptyState"
  have h1: "normalizeCityName locateEnv (ascii ''Atlantis'') \<noteq> []"
    unfolding atlantis by (simp add: ascii_def)
  have h2: "fst (primaryPath locateEnv (normalizeCityName locateEnv (ascii ''Atlantis''))
            (emptyState\<lparr>weatherStatus := Loading\<rparr>)) = None"
    by (simp only: atlantis atlantis_primary)
  have h3: "\<not> fst ?r" by code_simp
  have "?r = (fst ?r, snd ?r)" by simp
  from fetchWeather_fallback[OF this] h3
  have "weatherStatus (snd ?r) = Error \<and> weather (snd ?r) = weather emptyState" by blast
  with h1 h2 h3 atlantis_requests show ?thesis by blast
qed

section \<open>Properties of the location\<close>

lemma fetchWeather_requests:
  "\<exists>rs. requests (snd (fetchWeather e c s)) = requests s @ rs \<and> concat (map endpointOf rs) = []"
proof -
  let ?n = "normalizeCityName e c"
  let ?s0 = "s\<lparr>weatherStatus := Loading\<rparr>"
  let ?p = "primaryPath e ?n ?s0"
  let ?q = "secondaryPath e ?n (snd ?p)"
  obtain mid where mid: "requests (snd ?p) = requests s @ Geocoding ?n # mid"
    "concat (map endpointOf mid) = []"
    using primaryPath_requests[of e ?n ?s0] by auto
  have rq: "requests (snd ?q) = requests s @ (Geocoding ?n # mid @ [Wttr ?n])"
    by (simp add: secondaryPath_requests mid)
  have e1: "concat (map endpointOf (Geocoding ?n # mid)) = []"
    "concat (map endpointOf (Geocoding ?n # mid @ [Wttr ?n])) = []"
    using mid(2) by simp_all
  consider "?n = []" | "?n \<noteq> []" "fst ?p \<noteq> None" | "?n \<noteq> []" "fst ?p = None" by blast
  then show ?thesis
  proof cases
    case 1
    then have "requests (snd (fetchWeather e c s)) = requests s @ []"
      by (simp add: fetchWeather_cases Let_def)
    then show ?thesis by (intro exI[of _ "[]"]) simp
  next
    case 2
    then have "requests (snd (fetchWeather e c s)) = requests s @ (Geocoding ?n # mid)"
      by (simp add: fetchWeather_cases Let_def mid)
    with e1(1) show ?thesis by blast
  next
    case 3
    then have "requests (snd (fetchWeather e c s)) = requests s @ (Geocoding ?n # mid @ [Wttr ?n])"
      using rq by (simp add: fetchWeather_cases Let_def)
    with e1(2) show ?thesis by blast
  qed
qed

lemma fetchWeather_ok:
  assumes "fst (fetchWeather e c s)"
  shows "weatherStatus (snd (fetchWeather e c s)) = Ready"
    and "\<exists>info. weather (snd (fetchWeather e c s)) = Some info \<and> w_city info = normalizeCityName e c"
proof -
  let ?n = "normalizeCityName e c"
  let ?p = "primaryPath e ?n (s\<lparr>weatherStatus := Loading\<rparr>)"
  let ?q = "secondaryPath e ?n (snd ?p)"
  from assms show "weatherStatus (snd (fetchWeather e c s)) = Ready"
    by (simp add: fetchWeather_cases Let_def split: if_splits)
  from assms consider "fst ?p \<noteq> None" "weather (snd (fetchWeather e c s)) = fst ?p"
    | "fst ?q \<noteq> None" "weather (snd (fetchWeather e c s)) = fst ?q"
    by (auto simp: fetchWeather_cases Let_def split: if_splits)
  then show "\<exists>info. weather (snd (fetchWeather e c s)) = Some info \<and> w_city info = ?n"
  proof cases
    case 1
    then obtain info where "fst ?p = Some info" by auto
    with 1 primaryPath_city[of e ?n _ info] show ?thesis by auto
  next
    case 2
    then obtain info where "fst ?q = Some info" by auto
    with 2 secondaryPath_city[of e ?n _ info] show ?thesis by auto
  qed
qed

lemma tryEndpoint_cases:
  "tryEndpoint e ep s =
     (let s1 = logRequest (IpEndpoint ep) s in
      case ipLookup e (length (requests s)) ep of
        Some (Some c) \<Rightarrow>
          if c \<noteq> [] \<and> fst (fetchWeather e (normalizeCityName e c) s1)
          then (Some (normalizeCityName e c), snd (fetchWeather e (normalizeCityName e c) s1))
          else if c \<noteq> [] then (None, snd (fetchWeather e (normalizeCityName e c) s1))
          else (None, s1)
      | _ \<Rightarrow> (None, s1))"
  by (simp add: tryEndpoint_def Let_def split: option.splits)

lemma tryEndpoint_requests:
  "\<exists>rs. requests (snd (tryEndpoint e ep s)) = requests s @ IpEndpoint ep # rs
        \<and> concat (map endpointOf rs) = []"
proof -
  let ?s1 = "logRequest (IpEndpoint ep) s"
  have s1: "requests ?s1 = requests s @ [IpEndpoint ep]" by (simp add: logRequest_def)
  have f: "\<exists>rs. requests (snd (fetchWeather e c ?s1)) = requests s @ IpEndpoint ep # rs
        \<and> concat (map endpointOf rs) = []" for c
    using fetchWeather_requests[of e c ?s1] s1 by auto
  show ?thesis
    using f s1 by (auto simp: tryEndpoint_cases Let_def split: option.splits)
qed

lemma tryEndpoint_Some:
  assumes "tryEndpoint e ep s = (Some cityName, s2)"
  shows "weatherStatus s2 = Ready"
    and "\<exists>info. weather s2 = Some info \<and> w_city info = normalizeCityName e cityName"
proof -
  let ?s1 = "logRequest (IpEndpoint ep) s"
  from assms obtain c where c: "fst (fetchWeather e (normalizeCityName e c) ?s1)"
    "cityName = normalizeCityName e c" "s2 = snd (fetchWeather e (normalizeCityName e c) ?s1)"
    by (auto simp: tryEndpoint_cases Let_def split: option.splits if_splits)
  from fetchWeather_ok[OF c(1)] c(2,3)
  show "weatherStatus s2 = Ready"
    and "\<exists>info. weather s2 = Some info \<and> w_city info = normalizeCityName e cityName"
    by auto
qed

lemma tryEndpoint_None_iff:
  "fst (tryEndpoint e ep s) = None \<longleftrightarrow>
     ipLookup e (length (requests s)) ep = None
     \<or> ipLookup e (length (requests s)) ep = Some None
     \<or> ipLookup e (length (requests s)) ep = Some (Some [])
     \<or> (\<exists>c. ipLookup e (length (requests s)) ep = Some (Some c) \<and> c \<noteq> []
            \<and> \<not> fst (fetchWeather e (normalizeCityName e c) (logRequest (IpEndpoint ep) s)))"
  by (auto simp: tryEndpoint_cases Let_def split: option.splits)

lemma locateLoop_lookups:
  "locateLoop e eps s = (found, s') \<Longrightarrow>
     \<exists>rs. requests s' = requests s @ rs
        \<and> (if found then concat (map endpointOf rs) \<noteq> []
                         \<and> (\<exists>rest. eps = concat (map endpointOf rs) @ rest)
            else concat (map endpointOf rs) = eps)"
proof (induction eps arbitrary: s)
  case Nil
  then show ?case by auto
next
  case (Cons ep eps)
  obtain r s2 where t: "tryEndpoint e ep s = (r, s2)" by (cases "tryEndpoint e ep s")
  obtain rs where rs: "requests s2 = requests s @ IpEndpoint ep # rs" "concat (map endpointOf rs) = []"
    using tryEndpoint_requests[of e ep s] t by auto
  show ?case
  proof (cases r)
    case (Some c)
    with t Cons.prems have "found" "requests s' = requests s @ (IpEndpoint ep # rs)"
      using rs by auto
    moreover have c: "concat (map endpointOf (IpEndpoint ep # rs)) = [ep]" using rs(2) by simp
    moreover have "if found then concat (map endpointOf (IpEndpoint ep # rs)) \<noteq> []
                         \<and> (\<exists>rest. ep # eps = concat (map endpointOf (IpEndpoint ep # rs)) @ rest)
       else concat (map endpointOf (IpEndpoint ep # rs)) = ep # eps"
      unfolding c using \<open>found\<close> by simp
    ultimately show ?thesis by blast
  next
    case None
    with t Cons.prems have "locateLoop e eps s2 = (found, s')" by simp
    from Cons.IH[OF this] obtain rs' where rs': "requests s' = requests s2 @ rs'"
      "if found then concat (map endpointOf rs') \<noteq> []
                         \<and> (\<exists>rest. eps = concat (map endpointOf rs') @ rest)
       else concat (map endpointOf rs') = eps" by blast
    have c: "concat (map endpointOf (IpEndpoint ep # rs @ rs')) = ep # concat (map endpointOf rs')"
      using rs(2) by simp
    have "requests s' = requests s @ (IpEndpoint ep # rs @ rs')" using rs(1) rs'(1) by simp
    moreover have "if found then concat (map endpointOf (IpEndpoint ep # rs @ rs')) \<noteq> []
                         \<and> (\<exists>rest. ep # eps = concat (map endpointOf (IpEndpoint ep # rs @ rs')) @ rest)
       else concat (map endpointOf (IpEndpoint ep # rs @ rs')) = ep # eps"
      using rs'(2) unfolding c by (auto split: if_splits)
    ultimately show ?thesis by blast
  qed
qed

lemma locateLoop_outcome:
  "locateLoop e eps s = (found, s') \<Longrightarrow>
     (if found then cityMode s' = Auto \<and> weatherStatus s' = Ready
                    \<and> (\<exists>info. weather s' = Some info \<and> w_city info = normalizeCityName e (city s'))
      else sameCity s s')"
proof (induction eps arbitrary: s)
  case Nil
  then show ?case by (auto simp: sameCity_def)
next
  case (Cons ep eps)
  obtain r s2 where t: "tryEndpoint e ep s = (r, s2)" by (cases "tryEndpoint e ep s")
  show ?case
  proof (cases r)
    case (Some c)
    with t Cons.prems have f: "found" "s' = s2\<lparr>city := c, cityMode := Auto\<rparr>" by auto
    from t Some tryEndpoint_Some[of e ep s c s2] f show ?thesis by auto
  next
    case None
    with t Cons.prems have l: "locateLoop e eps s2 = (found, s')" by simp
    from tryEndpoint_same(2)[of s e ep] t have "sameCity s s2" by simp
    with Cons.IH[OF l] show ?thesis by (auto simp: sameCity_def split: if_splits)
  qed
qed

lemma locateLoop_next:
  assumes "fst (tryEndpoint e ep s) = None"
  shows "\<exists>rs. requests (snd (locateLoop e (ep # ep2 # others) s))
              = requests (snd (tryEndpoint e ep s)) @ IpEndpoint ep2 # rs"
proof -
  obtain s2 where t: "tryEndpoint e ep s = (None, s2)"
    using assms by (cases "tryEndpoint e ep s") auto
  obtain r s3 where t2: "tryEndpoint e ep2 s2 = (r, s3)" by (cases "tryEndpoint e ep2 s2")
  obtain rs where rs: "requests s3 = requests s2 @ IpEndpoint ep2 # rs"
    using tryEndpoint_requests[of e ep2 s2] t2 by auto
  show ?thesis
  proof (cases r)
    case (Some c)
    with t t2 rs show ?thesis by simp
  next
    case None
    obtain f s' where l: "locateLoop e others s3 = (f, s')" by (cases "locateLoop e others s3")
    from locateLoop_lookups[OF l] obtain rs' where "requests s' = requests s3 @ rs'" by blast
    with None t t2 rs l show ?thesis by simp
  qed
qed

lemma tryEndpoint_lookups:
  "lookupsSince (length (requests s)) (snd (tryEndpoint e ep s)) = [ep]"
proof -
  obtain rs where "requests (snd (tryEndpoint e ep s)) = requests s @ IpEndpoint ep # rs"
    "concat (map endpointOf rs) = []"
    using tryEndpoint_requests[of e ep s] by blast
  then show ?thesis by (simp add: lookupsSince_def)
qed

lemma tryEndpoint_lookups_twice:
  "lookupsSince (length (requests s)) (snd (tryEndpoint e ep2 (snd (tryEndpoint e ep s)))) = [ep, ep2]"
proof -
  obtain rs where rs: "requests (snd (tryEndpoint e ep s)) = requests s @ IpEndpoint ep # rs"
    "concat (map endpointOf rs) = []"
    using tryEndpoint_requests[of e ep s] by blast
  obtain rs2 where rs2: "requests (snd (tryEndpoint e ep2 (snd (tryEndpoint e ep s))))
      = requests (snd (tryEndpoint e ep s)) @ IpEndpoint ep2 # rs2"
    "concat (map endpointOf rs2) = []"
    using tryEndpoint_requests[of e ep2 "snd (tryEndpoint e ep s)"] by blast
  have "lookupsSince (length (requests s)) (snd (tryEndpoint e ep2 (snd (tryEndpoint e ep s))))
      = concat (map endpointOf (IpEndpoint ep # rs @ IpEndpoint ep2 # rs2))"
    by (simp add: lookupsSince_def rs(1) rs2(1))
  also have "\<dots> = [ep] @ concat (map endpointOf rs) @ [ep2] @ concat (map endpointOf rs2)"
    by simp
  also have "\<dots> = [ep, ep2]" unfolding rs(2) rs2(2) by simp
  finally show ?thesis .
qed

text \<open>
  C9: \<^verbatim>\<open>locateWeather\<close> takes the three endpoints in their fixed order, each turn from the
  state that the turn before has left. The first turn that yields a city commits it: the
  city is that city, the mode is automatic, and no later endpoint is asked. A turn that
  yields none is followed by the next turn; when all three yield none, the city and its
  mode are those from before and all three endpoints were asked. A turn yields no city
  when the lookup is rejected or gives no city or an empty one; with a city that is not
  empty it yields the normalized city exactly when \<^verbatim>\<open>fetchWeather\<close> succeeds for it, and
  then the weather is ready and is that of the normalized city.
\<close>

theorem locateWeather_spec:
  assumes t1: "tryEndpoint e (ascii ''https://ipwho.is/'') (s\<lparr>isLocating := True\<rparr>) = (r1, s1)"
      and t2: "tryEndpoint e (ascii ''https://ipapi.co/json/'') s1 = (r2, s2)"
      and t3: "tryEndpoint e (ascii ''https://geolocation-db.com/json/'') s2 = (r3, s3)"
  shows "locateWeather e s =
           (case r1 of
              Some c \<Rightarrow> s1\<lparr>city := c, cityMode := Auto, isLocating := False\<rparr>
            | None \<Rightarrow>
               (case r2 of
                  Some c \<Rightarrow> s2\<lparr>city := c, cityMode := Auto, isLocating := False\<rparr>
                | None \<Rightarrow>
                   (case r3 of
                      Some c \<Rightarrow> s3\<lparr>city := c, cityMode := Auto, isLocating := False\<rparr>
                    | None \<Rightarrow> s3\<lparr>isLocating := False\<rparr>)))
       \<and> (r1 = None \<and> r2 = None \<and> r3 = None \<longrightarrow>
            city (locateWeather e s) = city s \<and> cityMode (locateWeather e s) = cityMode s
            \<and> lookupsSince (length (requests s)) (locateWeather e s) = ipEndpoints)
       \<and> (r1 \<noteq> None \<longrightarrow>
            lookupsSince (length (requests s)) (locateWeather e s) = [ascii ''https://ipwho.is/''])
       \<and> (r1 = None \<and> r2 \<noteq> None \<longrightarrow>
            lookupsSince (length (requests s)) (locateWeather e s)
              = [ascii ''https://ipwho.is/'', ascii ''https://ipapi.co/json/''])
       \<and> (r1 = None \<longrightarrow>
            (\<exists>rs. requests (locateWeather e s)
                    = requests s1 @ IpEndpoint (ascii ''https://ipapi.co/json/'') # rs))
       \<and> (ipLookup e (length (requests st)) ep = None
            \<or> ipLookup e (length (requests st)) ep = Some None
            \<or> ipLookup e (length (requests st)) ep = Some (Some []) \<longrightarrow>
            tryEndpoint e ep st = (None, st\<lparr>requests := requests st @ [IpEndpoint ep]\<rparr>))
       \<and> (ipLookup e (length (requests st)) ep = Some (Some c) \<and> c \<noteq> [] \<longrightarrow>
            tryEndpoint e ep st
              = (if fst (fetchWeather e (normalizeCityName e c)
                           (st\<lparr>requests := requests st @ [IpEndpoint ep]\<rparr>))
                 then Some (normalizeCityName e c) else None,
                 snd (fetchWeather e (normalizeCityName e c)
                        (st\<lparr>requests := requests st @ [IpEndpoint ep]\<rparr>))))
       \<and> (tryEndpoint e ep st = (Some c, st') \<longrightarrow>
            weatherStatus st' = Ready
            \<and> (\<exists>info. weather st' = Some info \<and> w_city info = normalizeCityName e c))"
proof -
  let ?s0 = "s\<lparr>isLocating := True\<rparr>"
  let ?ep1 = "ascii ''https://ipwho.is/''"
  let ?ep2 = "ascii ''https://ipapi.co/json/''"
  let ?ep3 = "ascii ''https://geolocation-db.com/json/''"
  have s1: "s1 = snd (tryEndpoint e ?ep1 ?s0)" and s2: "s2 = snd (tryEndpoint e ?ep2 s1)"
    and s3: "s3 = snd (tryEndpoint e ?ep3 s2)"
    using t1 t2 t3 by simp_all
  have 1: "locateWeather e s =
           (case r1 of
              Some c \<Rightarrow> s1\<lparr>city := c, cityMode := Auto, isLocating := False\<rparr>
            | None \<Rightarrow>
               (case r2 of
                  Some c \<Rightarrow> s2\<lparr>city := c, cityMode := Auto, isLocating := False\<rparr>
                | None \<Rightarrow>
                   (case r3 of
                      Some c \<Rightarrow> s3\<lparr>city := c, cityMode := Auto, isLocating := False\<rparr>
                    | None \<Rightarrow> s3\<lparr>isLocating := False\<rparr>)))"
    using t1 t2 t3 by (simp add: locateWeather_def ipEndpoints_def split: option.splits)
  have l1: "lookupsSince (length (requests s)) s1 = [?ep1]"
    using tryEndpoint_lookups[of ?s0 e ?ep1] by (simp add: s1)
  have l2: "lookupsSince (length (requests s)) s2 = [?ep1, ?ep2]"
    using tryEndpoint_lookups_twice[of ?s0 e ?ep2 ?ep1] by (simp add: s1 s2)
  obtain rs2 where rs2: "requests s2 = requests s1 @ IpEndpoint ?ep2 # rs2"
    "concat (map endpointOf rs2) = []"
    using tryEndpoint_requests[of e ?ep2 s1] by (auto simp: s2)
  obtain rs3 where rs3: "requests s3 = requests s2 @ IpEndpoint ?ep3 # rs3"
    "concat (map endpointOf rs3) = []"
    using tryEndpoint_requests[of e ?ep3 s2] by (auto simp: s3)
  have l3: "lookupsSince (length (requests s)) s3 = [?ep1, ?ep2, ?ep3]"
  proof -
    have "drop (length (requests s)) (requests s3)
            = drop (length (requests s)) (requests s2) @ IpEndpoint ?ep3 # rs3"
    proof -
      obtain rs1 where "requests s1 = requests s @ IpEndpoint ?ep1 # rs1"
        using tryEndpoint_requests[of e ?ep1 ?s0] by (auto simp: s1)
      then show ?thesis by (simp add: rs3(1) rs2(1))
    qed
    then have "lookupsSince (length (requests s)) s3
            = lookupsSince (length (requests s)) s2 @ concat (map endpointOf (IpEndpoint ?ep3 # rs3))"
      by (simp add: lookupsSince_def)
    also have "\<dots> = [?ep1, ?ep2] @ [?ep3] @ concat (map endpointOf rs3)"
      by (simp add: l2)
    also have "\<dots> = [?ep1, ?ep2, ?ep3]" unfolding rs3(2) by simp
    finally show ?thesis .
  qed
  have lk: "lookupsSince n a = lookupsSince n b" if "requests a = requests b" for n a b
    using that by (simp add: lookupsSince_def)
  have q1: "r1 \<noteq> None \<Longrightarrow> requests (locateWeather e s) = requests s1"
    and q2: "r1 = None \<Longrightarrow> r2 \<noteq> None \<Longrightarrow> requests (locateWeather e s) = requests s2"
    and q3: "r1 = None \<Longrightarrow> r2 = None \<Longrightarrow> requests (locateWeather e s) = requests s3"
    by (auto simp: 1 split: option.splits)
  have c3: "sameCity ?s0 s3"
    using tryEndpoint_same(2)[of ?s0 e ?ep1] tryEndpoint_same(2)[of s1 e ?ep2]
      tryEndpoint_same(2)[of s2 e ?ep3]
    by (simp add: s1[symmetric] s2[symmetric] s3[symmetric] sameCity_def)
  have 2: "r1 = None \<and> r2 = None \<and> r3 = None \<longrightarrow>
            city (locateWeather e s) = city s \<and> cityMode (locateWeather e s) = cityMode s
            \<and> lookupsSince (length (requests s)) (locateWeather e s) = ipEndpoints"
  proof
    assume a: "r1 = None \<and> r2 = None \<and> r3 = None"
    then have "locateWeather e s = s3\<lparr>isLocating := False\<rparr>" by (simp add: 1)
    with c3 have "city (locateWeather e s) = city s" "cityMode (locateWeather e s) = cityMode s"
      by (simp_all add: sameCity_def)
    moreover from a have "lookupsSince (length (requests s)) (locateWeather e s) = ipEndpoints"
      using lk[OF q3] l3 by (simp add: ipEndpoints_def)
    ultimately show "city (locateWeather e s) = city s \<and> cityMode (locateWeather e s) = cityMode s
            \<and> lookupsSince (length (requests s)) (locateWeather e s) = ipEndpoints" by blast
  qed
  have 3: "r1 \<noteq> None \<longrightarrow>
            lookupsSince (length (requests s)) (locateWeather e s) = [?ep1]"
    using lk[OF q1] l1 by simp
  have 4: "r1 = None \<and> r2 \<noteq> None \<longrightarrow>
            lookupsSince (length (requests s)) (locateWeather e s) = [?ep1, ?ep2]"
    using lk[OF q2] l2 by simp
  have 5: "r1 = None \<longrightarrow>
            (\<exists>rs. requests (locateWeather e s) = requests s1 @ IpEndpoint ?ep2 # rs)"
  proof
    assume a: "r1 = None"
    show "\<exists>rs. requests (locateWeather e s) = requests s1 @ IpEndpoint ?ep2 # rs"
    proof (cases r2)
      case None
      with a q3 rs2(1) rs3(1) show ?thesis by simp
    next
      case (Some c)
      with a q2 rs2(1) show ?thesis by simp
    qed
  qed
  have 6: "ipLookup e (length (requests st)) ep = None
            \<or> ipLookup e (length (requests st)) ep = Some None
            \<or> ipLookup e (length (requests st)) ep = Some (Some []) \<longrightarrow>
            tryEndpoint e ep st = (None, st\<lparr>requests := requests st @ [IpEndpoint ep]\<rparr>)"
    by (auto simp: tryEndpoint_cases logRequest_def Let_def)
  have 7: "ipLookup e (length (requests st)) ep = Some (Some c) \<and> c \<noteq> [] \<longrightarrow>
            tryEndpoint e ep st
              = (if fst (fetchWeather e (normalizeCityName e c)
                           (st\<lparr>requests := requests st @ [IpEndpoint ep]\<rparr>))
                 then Some (normalizeCityName e c) else None,
                 snd (fetchWeather e (normalizeCityName e c)
                        (st\<lparr>requests := requests st @ [IpEndpoint ep]\<rparr>)))"
    by (auto simp: tryEndpoint_cases logRequest_def Let_def)
  have 8: "tryEndpoint e ep st = (Some c, st') \<longrightarrow>
            weatherStatus st' = Ready
            \<and> (\<exists>info. weather st' = Some info \<and> w_city info = normalizeCityName e c)"
    using tryEndpoint_Some[of e ep st c st'] by blast
  from 1 2 3 4 5 6 7 8 show ?thesis by blast
qed

lemma locateEnv_turns:
  "fst (tryEndpoint locateEnv (ascii ''https://ipwho.is/'') (emptyState\<lparr>isLocating := True\<rparr>)) = None"
  "fst (tryEndpoint locateEnv (ascii ''https://ipapi.co/json/'')
         (snd (tryEndpoint locateEnv (ascii ''https://ipwho.is/'') (emptyState\<lparr>isLocating := True\<rparr>))))
     = Some [0x4E0A, 0x6D77]"
  by code_simp+

lemma demoEnv_turns:
  "fst (tryEndpoint demoEnv (ascii ''https://ipwho.is/'') (emptyState\<lparr>isLocating := True\<rparr>)) = None"
  "fst (tryEndpoint demoEnv (ascii ''https://ipapi.co/json/'')
         (snd (tryEndpoint demoEnv (ascii ''https://ipwho.is/'') (emptyState\<lparr>isLocating := True\<rparr>))))
     = None"
  "fst (tryEndpoint demoEnv (ascii ''https://geolocation-db.com/json/'')
         (snd (tryEndpoint demoEnv (ascii ''https://ipapi.co/json/'')
           (snd (tryEndpoint demoEnv (ascii ''https://ipwho.is/'') (emptyState\<lparr>isLocating := True\<rparr>))))))
     = None"
  by code_simp+

lemma directEnv_turn:
  "fst (tryEndpoint directEnv (ascii ''https://ipwho.is/'') (emptyState\<lparr>isLocating := True\<rparr>))
     = Some [0x4E0A, 0x6D77]"
  by code_simp

lemma emptyState_requests: "length (requests emptyState) = 0"
  by (simp add: emptyState_def)

text \<open>
  A network where the weather of the first city fails and the second city resolves, one
  where the first city resolves, and one that rejects everything.
\<close>

theorem locateWeather_spec_witness:
  "fst (tryEndpoint locateEnv (ascii ''https://ipwho.is/'') (emptyState\<lparr>isLocating := True\<rparr>)) = None
   \<and> fst (tryEndpoint locateEnv (ascii ''https://ipapi.co/json/'')
            (snd (tryEndpoint locateEnv (ascii ''https://ipwho.is/'') (emptyState\<lparr>isLocating := True\<rparr>))))
       = Some [0x4E0A, 0x6D77]
   \<and> city (locateWeather locateEnv emptyState) = [0x4E0A, 0x6D77]
   \<and> cityMode (locateWeather locateEnv emptyState) = Auto
   \<and> lookupsSince 0 (locateWeather locateEnv emptyState)
       = [ascii ''https://ipwho.is/'', ascii ''https://ipapi.co/json/'']
   \<and> fst (tryEndpoint directEnv (ascii ''https://ipwho.is/'') (emptyState\<lparr>isLocating := True\<rparr>))
       = Some [0x4E0A, 0x6D77]
   \<and> city (locateWeather directEnv emptyState) = [0x4E0A, 0x6D77]
   \<and> lookupsSince 0 (locateWeather directEnv emptyState) = [ascii ''https://ipwho.is/'']
   \<and> city (locateWeather demoEnv emptyState) = city emptyState
   \<and> cityMode (locateWeather demoEnv emptyState) = cityMode emptyState
   \<and> lookupsSince 0 (locateWeather demoEnv emptyState) = ipEndpoints"
proof -
  let ?s0 = "emptyState\<lparr>isLocating := True\<rparr>"
  let ?ep1 = "ascii ''https://ipwho.is/''"
  let ?ep2 = "ascii ''https://ipapi.co/json/''"
  let ?ep3 = "ascii ''https://geolocation-db.com/json/''"
  have c: "x = (fst x, snd x)" for x :: "jstring option \<times> state" by simp
  note L = locateWeather_spec[OF c[of "tryEndpoint locateEnv ?ep1 ?s0"]
      c[of "tryEndpoint locateEnv ?ep2 (snd (tryEndpoint locateEnv ?ep1 ?s0))"]
      c[of "tryEndpoint locateEnv ?ep3 (snd (tryEndpoint locateEnv ?ep2 (snd (tryEndpoint locateEnv ?ep1 ?s0))))"]]
  note D = locateWeather_spec[OF c[of "tryEndpoint directEnv ?ep1 ?s0"]
      c[of "tryEndpoint directEnv ?ep2 (snd (tryEndpoint directEnv ?ep1 ?s0))"]
      c[of "tryEndpoint directEnv ?ep3 (snd (tryEndpoint directEnv ?ep2 (snd (tryEndpoint directEnv ?ep1 ?s0))))"]]
  note N = locateWeather_spec[OF c[of "tryEndpoint demoEnv ?ep1 ?s0"]
      c[of "tryEndpoint demoEnv ?ep2 (snd (tryEndpoint demoEnv ?ep1 ?s0))"]
      c[of "tryEndpoint demoEnv ?ep3 (snd (tryEndpoint demoEnv ?ep2 (snd (tryEndpoint demoEnv ?ep1 ?s0))))"]]
  from L[THEN conjunct1] have "locateWeather locateEnv emptyState
      = (snd (tryEndpoint locateEnv ?ep2 (snd (tryEndpoint locateEnv ?ep1 ?s0))))
          \<lparr>city := [0x4E0A, 0x6D77], cityMode := Auto, isLocating := False\<rparr>"
    by (simp add: locateEnv_turns)
  then have l1: "city (locateWeather locateEnv emptyState) = [0x4E0A, 0x6D77]"
    "cityMode (locateWeather locateEnv emptyState) = Auto"
    by simp_all
  from L[THEN conjunct2, THEN conjunct2, THEN conjunct2, THEN conjunct1]
  have l2: "lookupsSince 0 (locateWeather locateEnv emptyState) = [?ep1, ?ep2]"
    by (simp add: locateEnv_turns emptyState_requests)
  from D[THEN conjunct1] have "locateWeather directEnv emptyState
      = (snd (tryEndpoint directEnv ?ep1 ?s0))
          \<lparr>city := [0x4E0A, 0x6D77], cityMode := Auto, isLocating := False\<rparr>"
    by (simp add: directEnv_turn)
  then have d1: "city (locateWeather directEnv emptyState) = [0x4E0A, 0x6D77]" by simp
  from D[THEN conjunct2, THEN conjunct2, THEN conjunct1]
  have d2: "lookupsSince 0 (locateWeather directEnv emptyState) = [?ep1]"
    by (simp add: directEnv_turn emptyState_requests)
  from N[THEN conjunct2, THEN conjunct1]
  have n: "city (locateWeather demoEnv emptyState) = city emptyState"
    "cityMode (locateWeather demoEnv emptyState) = cityMode emptyState"
    "lookupsSince 0 (locateWeather demoEnv emptyState) = ipEndpoints"
    by (simp_all add: demoEnv_turns emptyState_requests)
  from l1 l2 d1 d2 n locateEnv_turns directEnv_turn show ?thesis by blast
qed

end
